theory Spec2Isabelle
  imports Main
begin

section \<open>Data model of \<^verbatim>\<open>scraper.py\<close>\<close>

text \<open>
  Python strings are modelled as HOL strings, one \<^typ>\<open>char\<close> per code point below 256.
  A \<^verbatim>\<open>dict.get(key)\<close> that may miss is an \<^typ>\<open>'a option\<close>; an exception object is a value
  of type \<open>exn\<close> (every exception the libraries raise here is an instance of Python's
  \<^verbatim>\<open>Exception\<close>, carrying its message).
\<close>

type_synonym path = string

datatype exn = Exn string

text \<open>What a Python function hands back: \<^verbatim>\<open>None\<close> or an integer.\<close>

datatype pyval = PyNone | PyInt int

text \<open>
  A feed entry (post or comment) as the source reads it: the keys \<^verbatim>\<open>id\<close>, \<^verbatim>\<open>title\<close>,
  \<^verbatim>\<open>published\<close>, \<^verbatim>\<open>content\<close> (a list of blocks, each a dict read through
  \<^verbatim>\<open>.get("value", "")\<close>), \<^verbatim>\<open>summary\<close> and \<^verbatim>\<open>author_detail\<close> (a dict read through
  \<^verbatim>\<open>.get("name", "Anonymous")\<close>). A content block is represented by its optional \<^verbatim>\<open>value\<close>,
  an author detail by its optional \<^verbatim>\<open>name\<close>.
\<close>

record entry =
  e_id :: "string option"
  e_title :: "string option"
  e_published :: "string option"
  e_content :: "string option list option"
  e_summary :: "string option"
  e_author_detail :: "string option option"

record link =
  l_rel :: "string option"
  l_href :: "string option"

text \<open>
  The result of \<^verbatim>\<open>feedparser.parse\<close>: \<open>f_bozo\<close> is \<open>Some e\<close> when the parser set
  \<^verbatim>\<open>bozo\<close> (then \<open>e\<close> is \<^verbatim>\<open>bozo_exception\<close>) and \<open>None\<close> when it did not;
  \<open>f_links\<close> is \<^verbatim>\<open>feed.feed\<close>'s optional \<^verbatim>\<open>links\<close> key.
\<close>

record feed =
  f_bozo :: "exn option"
  f_entries :: "entry list"
  f_links :: "link list option"

text \<open>One constructor per \<^verbatim>\<open>print\<close> statement of the source, holding the interpolated values.\<close>

datatype msg =
    MsgFetching string            \<comment> \<open>\<^verbatim>\<open>Fetching: {url}\<close>\<close>
  | MsgFeedError "exn option"     \<comment> \<open>\<^verbatim>\<open>Error fetching feed: {feed.bozo_exception}\<close>\<close>
  | MsgFound nat nat              \<comment> \<open>\<^verbatim>\<open>Found {len(feed.entries)} entries (total: {len(posts)})\<close>\<close>
  | MsgCommentError string exn    \<comment> \<open>\<^verbatim>\<open>Error fetching comments for {post_id}: {e}\<close>\<close>
  | MsgSkip string                \<comment> \<open>\<^verbatim>\<open>Skipping post with invalid date: {published}\<close>\<close>
  | MsgStart                      \<comment> \<open>\<^verbatim>\<open>Fetching all posts from the blog...\<close>\<close>
  | MsgTotal nat                  \<comment> \<open>\<^verbatim>\<open>Total posts found: {len(posts)}\<close>\<close>
  | MsgNoPosts                    \<comment> \<open>\<^verbatim>\<open>No posts found. Exiting.\<close>\<close>
  | MsgProcessing                 \<comment> \<open>\<^verbatim>\<open>Processing posts...\<close>\<close>
  | MsgProgress nat nat string    \<comment> \<open>\<^verbatim>\<open>[{i}/{len(posts)}] {title}\<close>\<close>
  | MsgFolder path                \<comment> \<open>the arrow line showing \<^verbatim>\<open>{folder}\<close>\<close>
  | MsgError exn                  \<comment> \<open>\<^verbatim>\<open>Error: {e}\<close>\<close>
  | MsgDone                       \<comment> \<open>\<^verbatim>\<open>Done! Posts saved to ./{OUTPUT_DIR}/\<close>\<close>

text \<open>
  The effects other than file writes, in the order they happen: a call of
  \<^verbatim>\<open>feedparser.parse(url)\<close>, a \<^verbatim>\<open>time.sleep(REQUEST_DELAY)\<close> (the delay is the one
  constant of the source, so the event carries no duration), a \<^verbatim>\<open>print\<close>.
\<close>

datatype event = Fetch string | Sleep | Print msg

text \<open>
  The world the script acts on: the regular files with their contents, the directories,
  and the trace of the other effects.
\<close>

record world =
  files :: "path \<rightharpoonup> string"
  dirs :: "path set"
  trace :: "event list"

text \<open>
  The libraries and the operating system, which the source only calls; \<open>'dt\<close> is the type
  of the timestamps of the date library:
  \<^item> \<open>feedparser_parse\<close>: \<^verbatim>\<open>feedparser.parse\<close>, \<open>Inl\<close> when it raises;
  \<^item> \<open>fromisoformat\<close>: \<^verbatim>\<open>datetime.fromisoformat\<close>, \<open>None\<close> when it raises \<^verbatim>\<open>ValueError\<close>;
  \<^item> \<open>strftime\<close>: \<^verbatim>\<open>dt.strftime(format)\<close>;
  \<^item> \<open>slugify\<close>: \<^verbatim>\<open>slugify(text, max_length=n)\<close>;
  \<^item> \<open>markdownify\<close>: \<^verbatim>\<open>md(html, heading_style="ATX", strip=["script", "style"])\<close>,
    \<open>Inl\<close> when it raises;
  \<^item> \<open>makedirs_fault\<close>: the \<^verbatim>\<open>OSError\<close> with which \<^verbatim>\<open>os.makedirs\<close> fails when it comes
    to make the directory of this path, if it does;
  \<^item> \<open>open_fault\<close>: the \<^verbatim>\<open>OSError\<close> with which \<^verbatim>\<open>open(path, "w")\<close> fails, if it does.

  The source raises nothing itself: every exception comes out of one of these calls. Each
  call answers the same way whenever it is made with the same argument.
\<close>

record 'dt env =
  feedparser_parse :: "string \<Rightarrow> exn + feed"
  fromisoformat :: "string \<Rightarrow> 'dt option"
  strftime :: "'dt \<Rightarrow> string \<Rightarrow> string"
  slugify :: "string \<Rightarrow> nat \<Rightarrow> string"
  markdownify :: "string \<Rightarrow> exn + string"
  makedirs_fault :: "path \<Rightarrow> exn option"
  open_fault :: "path \<Rightarrow> exn option"

definition BLOG_FEED_URL :: string where
  "BLOG_FEED_URL = ''https://theguitarman.blogspot.com/feeds/posts/default''"

definition OUTPUT_DIR :: path where
  "OUTPUT_DIR = ''posts''"

definition MAX_RESULTS_PER_PAGE :: string where
  \<comment> \<open>the constant 25 as the f-string renders it\<close>
  "MAX_RESULTS_PER_PAGE = ''25''"

section \<open>Python's built-ins and the operating system\<close>

definition emit :: "event list \<Rightarrow> world \<Rightarrow> world" where
  "emit evs w = w\<lparr>trace := trace w @ evs\<rparr>"

text \<open>Truth value of an optional string: \<^verbatim>\<open>None\<close> and \<^verbatim>\<open>""\<close> are false.\<close>

fun truthy :: "string option \<Rightarrow> bool" where
  "truthy None = False"
| "truthy (Some s) = (s \<noteq> [])"

text \<open>\<^verbatim>\<open>d.get(key, default)\<close> on a key that may be missing.\<close>

definition get_or :: "'a option \<Rightarrow> 'a \<Rightarrow> 'a" where
  "get_or x d = (case x of None \<Rightarrow> d | Some v \<Rightarrow> v)"

text \<open>
  \<^verbatim>\<open>str.isspace\<close> on one code point below 256: tab to carriage return, the four
  separators 28 to 31, space, NEL (133) and the no-break space (160).
\<close>

definition isspace :: "char \<Rightarrow> bool" where
  "isspace c = (of_char c \<in> {9, 10, 11, 12, 13, 28, 29, 30, 31, 32, 133, 160 :: nat})"

text \<open>\<^verbatim>\<open>str.strip()\<close>: whitespace removed at both ends.\<close>

definition strip :: "string \<Rightarrow> string" where
  "strip s = rev (dropWhile isspace (rev (dropWhile isspace s)))"

text \<open>The decimal digits that \<^verbatim>\<open>\d\<close> matches below code point 256.\<close>

definition isdigit :: "char \<Rightarrow> bool" where
  "isdigit c = (c \<in> set ''0123456789'')"

text \<open>
  \<^verbatim>\<open>os.path.join\<close> on POSIX: a component that starts with the separator replaces what
  came before; otherwise it is appended, with a separator unless the path so far is empty
  or ends with one.
\<close>

definition join2 :: "path \<Rightarrow> path \<Rightarrow> path" where
  "join2 a b =
     (if take 1 b = ''/'' then b
      else if a = [] \<or> last a = CHR ''/'' then a @ b
      else a @ ''/'' @ b)"

definition os_path_join :: "path \<Rightarrow> path list \<Rightarrow> path" where
  "os_path_join a ps = foldl join2 a ps"

text \<open>
  The directories that \<^verbatim>\<open>os.makedirs(p, exist_ok=True)\<close> leaves in place: \<open>p\<close> and each
  prefix of \<open>p\<close> that ends before a separator.
\<close>

definition dir_chain :: "path \<Rightarrow> path list" where
  "dir_chain p = map (\<lambda>i. take i p) (filter (\<lambda>i. p ! i = CHR ''/'') [1..<length p]) @ [p]"

text \<open>
  \<^verbatim>\<open>os.makedirs(p, exist_ok=True)\<close> makes the directories of \<open>dir_chain p\<close> from the
  outermost on. Where making one of them fails, the exception escapes and the directories
  made before it stay. The result is the exception that escapes, if any, and the world.
\<close>

fun mkdirs :: "'dt env \<Rightarrow> path list \<Rightarrow> world \<Rightarrow> exn option \<times> world" where
  "mkdirs env [] w = (None, w)"
| "mkdirs env (d # ds) w =
     (case makedirs_fault env d of
        Some ex \<Rightarrow> (Some ex, w)
      | None \<Rightarrow> mkdirs env ds (w\<lparr>dirs := insert d (dirs w)\<rparr>))"

definition makedirs :: "'dt env \<Rightarrow> path \<Rightarrow> world \<Rightarrow> exn option \<times> world" where
  "makedirs env p w = mkdirs env (dir_chain p) w"

text \<open>
  \<^verbatim>\<open>with open(p, "w", encoding="utf-8") as f:\<close> followed by writes that add up to \<open>text\<close>:
  mode \<^verbatim>\<open>"w"\<close> truncates, so the file holds \<open>text\<close> and nothing of what it held before.
\<close>

definition write_file :: "'dt env \<Rightarrow> path \<Rightarrow> string \<Rightarrow> world \<Rightarrow> exn + world" where
  "write_file env p text w =
     (case open_fault env p of
        Some ex \<Rightarrow> Inl ex
      | None \<Rightarrow> Inr (w\<lparr>files := (files w)(p \<mapsto> text)\<rparr>))"

section \<open>\<^verbatim>\<open>fetch_all_posts\<close>\<close>

text \<open>
  Lines 33 to 37: the \<^verbatim>\<open>href\<close> of the first link whose \<^verbatim>\<open>rel\<close> is \<^verbatim>\<open>"next"\<close>, and \<^verbatim>\<open>None\<close>
  when there is no such link.
\<close>

definition next_url :: "feed \<Rightarrow> string option" where
  "next_url fd =
     (case find (\<lambda>l. l_rel l = Some ''next'') (case f_links fd of None \<Rightarrow> [] | Some ls \<Rightarrow> ls) of
        None \<Rightarrow> None
      | Some l \<Rightarrow> l_href l)"

text \<open>
  The \<^verbatim>\<open>while url:\<close> loop of lines 22 to 40, with the loop variables \<open>url\<close> and \<open>posts\<close>.
  The loop has no bound of its own, so a run that never leaves it is the value \<open>None\<close>.
\<close>

partial_function (option) fetch_loop ::
  "'dt env \<Rightarrow> string option \<Rightarrow> entry list \<Rightarrow> world \<Rightarrow> ((exn + entry list) \<times> world) option"
where
  "fetch_loop env url posts w =
     (case url of
        None \<Rightarrow> Some (Inr posts, w)
      | Some u \<Rightarrow>
          if u = [] then Some (Inr posts, w)
          else
            (case feedparser_parse env u of
               Inl ex \<Rightarrow> Some (Inl ex, emit [Print (MsgFetching u), Fetch u] w)
             | Inr fd \<Rightarrow>
                 if f_bozo fd \<noteq> None \<and> f_entries fd = [] then
                   Some (Inr posts,
                         emit [Print (MsgFetching u), Fetch u, Print (MsgFeedError (f_bozo fd))] w)
                 else
                   fetch_loop env (next_url fd) (posts @ f_entries fd)
                     (emit ([Print (MsgFetching u), Fetch u,
                             Print (MsgFound (length (f_entries fd))
                                             (length (posts @ f_entries fd)))]
                            @ (if truthy (next_url fd) then [Sleep] else [])) w)))"

declare fetch_loop.simps [code]

definition fetch_all_posts ::
  "'dt env \<Rightarrow> world \<Rightarrow> ((exn + entry list) \<times> world) option" where
  "fetch_all_posts env w =
     fetch_loop env (Some (BLOG_FEED_URL @ ''?max-results='' @ MAX_RESULTS_PER_PAGE)) [] w"

section \<open>\<^verbatim>\<open>extract_post_id\<close>, \<^verbatim>\<open>fetch_comments\<close>\<close>

text \<open>
  \<^verbatim>\<open>re.search(r"post-(\d+)", s)\<close>: the leftmost place where \<^verbatim>\<open>post-\<close> is followed by a
  digit, and there the longest run of digits.
\<close>

fun re_search_post :: "string \<Rightarrow> string option" where
  "re_search_post [] = None"
| "re_search_post (c # cs) =
     (if take 5 (c # cs) = ''post-'' \<and> takeWhile isdigit (drop 5 (c # cs)) \<noteq> []
      then Some (takeWhile isdigit (drop 5 (c # cs)))
      else re_search_post cs)"

definition extract_post_id :: "entry \<Rightarrow> string option" where
  "extract_post_id e = re_search_post (get_or (e_id e) [])"

definition fetch_comments :: "'dt env \<Rightarrow> string option \<Rightarrow> world \<Rightarrow> entry list \<times> world" where
  "fetch_comments env post_id w =
     (case post_id of
        None \<Rightarrow> ([], w)
      | Some pid \<Rightarrow>
          if pid = [] then ([], w)
          else
            (let url = ''https://theguitarman.blogspot.com/feeds/'' @ pid @ ''/comments/default''
             in case feedparser_parse env url of
                  Inl ex \<Rightarrow> ([], emit [Fetch url, Print (MsgCommentError pid ex)] w)
                | Inr fd \<Rightarrow>
                    if f_bozo fd \<noteq> None \<and> f_entries fd = [] then ([], emit [Fetch url] w)
                    else (f_entries fd, emit [Fetch url] w)))"

section \<open>Dates, folder names, markdown\<close>

text \<open>\<^verbatim>\<open>date_string.replace("Z", "+00:00")\<close>.\<close>

definition replace_Z :: "string \<Rightarrow> string" where
  "replace_Z s = concat (map (\<lambda>c. if c = CHR ''Z'' then ''+00:00'' else [c]) s)"

definition parse_datetime :: "'dt env \<Rightarrow> string \<Rightarrow> 'dt option" where
  "parse_datetime env date_string = fromisoformat env (replace_Z date_string)"

definition generate_folder_name :: "'dt env \<Rightarrow> 'dt \<Rightarrow> string \<Rightarrow> string" where
  "generate_folder_name env dt title =
     (let date_prefix = strftime env dt ''%Y-%m-%d-%H-%M''
      in if title \<noteq> [] \<and> strip title \<noteq> []
         then date_prefix @ ''-'' @ slugify env title 50
         else date_prefix)"

text \<open>The argument is optional because the Python function also accepts \<^verbatim>\<open>None\<close>.\<close>

definition html_to_markdown :: "'dt env \<Rightarrow> string option \<Rightarrow> exn + string" where
  "html_to_markdown env html_content =
     (case html_content of
        None \<Rightarrow> Inr []
      | Some h \<Rightarrow> if h = [] then Inr [] else markdownify env h)"

definition format_comment_date :: "'dt env \<Rightarrow> string \<Rightarrow> string" where
  "format_comment_date env date_string =
     (case parse_datetime env date_string of
        Some dt \<Rightarrow> strftime env dt ''%Y-%m-%d %H:%M''
      | None \<Rightarrow> date_string)"

section \<open>\<^verbatim>\<open>process_post\<close>\<close>

text \<open>
  Lines 101 to 106, and again lines 141 to 146 for a comment: the \<^verbatim>\<open>value\<close> of the first
  content block when the entry has a non-empty \<^verbatim>\<open>content\<close> list, else the \<^verbatim>\<open>summary\<close>
  when the entry has one, else the empty string.
\<close>

definition entry_content :: "entry \<Rightarrow> string" where
  "entry_content e =
     (case e_content e of
        Some (block # blocks) \<Rightarrow> get_or block []
      | _ \<Rightarrow> get_or (e_summary e) [])"

text \<open>Line 139: \<^verbatim>\<open>comment.get("author_detail", {}).get("name", "Anonymous")\<close>.\<close>

definition comment_author :: "entry \<Rightarrow> string" where
  "comment_author comment = get_or (get_or (e_author_detail comment) None) ''Anonymous''"

text \<open>
  The loop of lines 138 to 156 over \<^verbatim>\<open>enumerate(comments)\<close>, from index \<open>i\<close> on, with
  \<open>n = len(comments)\<close>; \<open>f\<close> is what has been written to the open file so far. The result is
  what the file holds when the loop is left, and the exception that left it, if any.
\<close>

fun write_comments ::
  "'dt env \<Rightarrow> nat \<Rightarrow> nat \<Rightarrow> entry list \<Rightarrow> string \<Rightarrow> string \<times> exn option" where
  "write_comments env i n [] f = (f, None)"
| "write_comments env i n (comment # rest) f =
     (let author = comment_author comment;
          comment_date = get_or (e_published comment) [];
          comment_content = entry_content comment;
          formatted_date = format_comment_date env comment_date
      in case html_to_markdown env (Some comment_content) of
           Inl ex \<Rightarrow> (f, Some ex)
         | Inr comment_md \<Rightarrow>
             write_comments env (i + 1) n rest
               (f @ ''## '' @ author @ '' - '' @ formatted_date @ ''\<newline>\<newline>''
                  @ strip comment_md @ ''\<newline>\<newline>''
                  @ (if int i < int n - 1 then ''---\<newline>\<newline>'' else [])))"

text \<open>
  Lines 128 to 156: the comments of a post whose \<^verbatim>\<open>index.md\<close> has been written. The result
  is the exception that escapes, if any, and the world.
\<close>

definition process_post_comments ::
  "'dt env \<Rightarrow> entry \<Rightarrow> path \<Rightarrow> world \<Rightarrow> exn option \<times> world" where
  "process_post_comments env e folder_path w =
     (let post_id = extract_post_id e
      in if truthy post_id then
           (case fetch_comments env post_id (emit [Sleep] w) of
              (comments, w1) \<Rightarrow>
                if comments \<noteq> [] then
                  (let comments_path = os_path_join folder_path [''comments.md'']
                   in case open_fault env comments_path of
                        Some ex \<Rightarrow> (Some ex, w1)
                      | None \<Rightarrow>
                          (case write_comments env 0 (length comments) comments
                                  ''# Comments\<newline>\<newline>'' of
                             (text, err) \<Rightarrow>
                               (err, w1\<lparr>files := (files w1)(comments_path \<mapsto> text)\<rparr>)))
                else (None, w1))
         else (None, w))"

text \<open>
  The result is \<open>Inl\<close> for an exception that escapes the function, \<open>Inr None\<close> for the
  skipped post and \<open>Inr (Some folder_path)\<close> otherwise.
\<close>

definition process_post ::
  "'dt env \<Rightarrow> entry \<Rightarrow> path \<Rightarrow> world \<Rightarrow> (exn + path option) \<times> world" where
  "process_post env e output_base w =
     (let title = strip (get_or (e_title e) []);
          published = get_or (e_published e) [];
          content = entry_content e
      in case parse_datetime env published of
           None \<Rightarrow> (Inr None, emit [Print (MsgSkip published)] w)
         | Some dt \<Rightarrow>
             (let folder_name = generate_folder_name env dt title;
                  year = strftime env dt ''%Y'';
                  folder_path = os_path_join output_base [year, folder_name]
              in case makedirs env folder_path w of
                   (Some ex, w1) \<Rightarrow> (Inl ex, w1)
                 | (None, w1) \<Rightarrow>
                     (case html_to_markdown env (Some content) of
                        Inl ex \<Rightarrow> (Inl ex, w1)
                      | Inr markdown_content \<Rightarrow>
                          (case write_file env (os_path_join folder_path [''index.md''])
                                  ((if title \<noteq> [] then ''# '' @ title @ ''\<newline>\<newline>'' else [])
                                   @ strip markdown_content @ ''\<newline>'') w1 of
                             Inl ex \<Rightarrow> (Inl ex, w1)
                           | Inr w2 \<Rightarrow>
                               (case process_post_comments env e folder_path w2 of
                                  (Some ex, w3) \<Rightarrow> (Inl ex, w3)
                                | (None, w3) \<Rightarrow> (Inr (Some folder_path), w3))))))"

section \<open>\<^verbatim>\<open>main\<close>\<close>

text \<open>
  The loop of lines 173 to 182 over \<^verbatim>\<open>enumerate(posts, 1)\<close>, from index \<open>i\<close> on, with
  \<open>n = len(posts)\<close>. The \<^verbatim>\<open>try\<close> turns an exception of \<^verbatim>\<open>process_post\<close> into a printed
  line, so the loop itself has no way to fail.
\<close>

fun process_posts :: "'dt env \<Rightarrow> nat \<Rightarrow> nat \<Rightarrow> entry list \<Rightarrow> world \<Rightarrow> world" where
  "process_posts env i n [] w = w"
| "process_posts env i n (e # rest) w =
     (let title = take 50 (get_or (e_title e) ''(untitled)'')
      in case process_post env e OUTPUT_DIR (emit [Print (MsgProgress i n title)] w) of
           (Inr folder, w1) \<Rightarrow>
             process_posts env (i + 1) n rest
               (if truthy folder then emit [Print (MsgFolder (get_or folder []))] w1 else w1)
         | (Inl ex, w1) \<Rightarrow>
             process_posts env (i + 1) n rest (emit [Print (MsgError ex)] w1))"

text \<open>
  \<open>None\<close> when the pagination never ends; \<open>Inl\<close> for an exception that ends the process;
  otherwise the value that \<^verbatim>\<open>main\<close> returns.
\<close>

definition main :: "'dt env \<Rightarrow> world \<Rightarrow> ((exn + pyval) \<times> world) option" where
  "main env w =
     (case fetch_all_posts env (emit [Print MsgStart] w) of
        None \<Rightarrow> None
      | Some (Inl ex, w1) \<Rightarrow> Some (Inl ex, w1)
      | Some (Inr posts, w1) \<Rightarrow>
          if posts = [] then
            Some (Inr PyNone, emit [Print (MsgTotal (length posts)), Print MsgNoPosts] w1)
          else
            (case makedirs env OUTPUT_DIR (emit [Print (MsgTotal (length posts))] w1) of
               (Some ex, w2) \<Rightarrow> Some (Inl ex, w2)
             | (None, w2) \<Rightarrow>
                 Some (Inr PyNone,
                       emit [Print MsgDone]
                         (process_posts env 1 (length posts) posts
                            (emit [Print MsgProcessing] w2)))))"

section \<open>Vocabulary of the properties\<close>

subsection \<open>Pagination\<close>

text \<open>A page that ends the walk as a failure: the parser flagged it and it has no entry.\<close>

definition failed :: "feed \<Rightarrow> bool" where
  "failed fd = (f_bozo fd \<noteq> None \<and> f_entries fd = [])"

text \<open>
  \<open>page_chain env ch\<close>: the environment serves the pages of \<open>ch\<close> one after the other, each
  under its URL; every page but the last is usable and links to the URL of the one after
  it; the last page is a failure or has no usable next link.
\<close>

fun page_chain :: "'dt env \<Rightarrow> (string \<times> feed) list \<Rightarrow> bool" where
  "page_chain env [] = False"
| "page_chain env [(u, fd)] =
     (u \<noteq> [] \<and> feedparser_parse env u = Inr fd \<and> (failed fd \<or> \<not> truthy (next_url fd)))"
| "page_chain env ((u, fd) # (u', fd') # rest) =
     (u \<noteq> [] \<and> feedparser_parse env u = Inr fd \<and> \<not> failed fd \<and> next_url fd = Some u' \<and>
      page_chain env ((u', fd') # rest))"

text \<open>The requests and delays of a walk over these URLs: one delay between two requests.\<close>

fun expected_io :: "string list \<Rightarrow> event list" where
  "expected_io [] = []"
| "expected_io [u] = [Fetch u]"
| "expected_io (u # v # us) = Fetch u # Sleep # expected_io (v # us)"

fun is_print :: "event \<Rightarrow> bool" where
  "is_print (Print m) = True"
| "is_print e = False"

text \<open>The whole trace of a walk over a chain, started with \<open>k\<close> entries collected.\<close>

fun walk_trace :: "nat \<Rightarrow> (string \<times> feed) list \<Rightarrow> event list" where
  "walk_trace k [] = []"
| "walk_trace k [(u, fd)] =
     [Print (MsgFetching u), Fetch u,
      if failed fd then Print (MsgFeedError (f_bozo fd))
      else Print (MsgFound (length (f_entries fd)) (k + length (f_entries fd)))]"
| "walk_trace k ((u, fd) # p # rest) =
     [Print (MsgFetching u), Fetch u,
      Print (MsgFound (length (f_entries fd)) (k + length (f_entries fd))), Sleep]
     @ walk_trace (k + length (f_entries fd)) (p # rest)"

definition start_url :: string where
  "start_url = BLOG_FEED_URL @ ''?max-results='' @ MAX_RESULTS_PER_PAGE"

subsection \<open>Comments and documents\<close>

text \<open>The URL that \<^verbatim>\<open>fetch_comments\<close> requests for a post identifier.\<close>

definition comments_url :: "string \<Rightarrow> string" where
  "comments_url pid = ''https://theguitarman.blogspot.com/feeds/'' @ pid @ ''/comments/default''"

text \<open>
  The post document in the words of the specification: an optional \<^verbatim>\<open># <title>\<close> heading
  with a blank line after it, the trimmed body, a newline.
\<close>

definition post_document :: "string \<Rightarrow> string \<Rightarrow> string" where
  "post_document title body =
     (if title = [] then [] else ''# '' @ title @ ''\<newline>'' @ ''\<newline>'')
     @ strip body @ ''\<newline>''"

text \<open>
  The rendered markdown in the words of the specification: what the converter makes of the
  HTML, and the empty string for empty input. (Where the converter raises there is no
  rendering; the value there is used by no statement.)
\<close>

definition rendered :: "'dt env \<Rightarrow> string \<Rightarrow> string" where
  "rendered env html =
     (if html = [] then []
      else case markdownify env html of Inr m \<Rightarrow> m | Inl ex \<Rightarrow> [])"

text \<open>
  The comments document in the words of the specification: one section per comment, a
  subheading of author and date, then the rendered comment; a separator line between two
  sections; the heading \<^verbatim>\<open># Comments\<close> before all.
\<close>

definition comment_section :: "'dt env \<Rightarrow> entry \<Rightarrow> string" where
  "comment_section env c =
     ''## '' @ (case e_author_detail c of Some (Some a) \<Rightarrow> a | _ \<Rightarrow> ''Anonymous'')
     @ '' - '' @ format_comment_date env (get_or (e_published c) []) @ ''\<newline>'' @ ''\<newline>''
     @ strip (rendered env (entry_content c)) @ ''\<newline>'' @ ''\<newline>''"

fun join_sections :: "string list \<Rightarrow> string" where
  "join_sections [] = []"
| "join_sections [s] = s"
| "join_sections (s # t # ts) = s @ ''---'' @ ''\<newline>'' @ ''\<newline>'' @ join_sections (t # ts)"

definition comments_document :: "'dt env \<Rightarrow> entry list \<Rightarrow> string" where
  "comments_document env cs =
     ''# Comments'' @ ''\<newline>'' @ ''\<newline>'' @ join_sections (map (comment_section env) cs)"

text \<open>The output location of a post with timestamp \<open>dt\<close>: root, year, folder name.\<close>

definition post_folder :: "'dt env \<Rightarrow> entry \<Rightarrow> path \<Rightarrow> 'dt \<Rightarrow> path" where
  "post_folder env e output_base dt =
     os_path_join output_base
       [strftime env dt ''%Y'', generate_folder_name env dt (strip (get_or (e_title e) []))]"

subsection \<open>Effects\<close>

text \<open>
  Every effect of the script adds to the world and reads nothing back from it: files are
  set, directories added, events appended.
\<close>

type_synonym effect = "(path \<rightharpoonup> string) \<times> path set \<times> event list"

fun apply_effect :: "effect \<Rightarrow> world \<Rightarrow> world" where
  "apply_effect (fs, ds, evs) w =
     \<lparr>files = files w ++ fs, dirs = dirs w \<union> ds, trace = trace w @ evs\<rparr>"

fun is_progress :: "event \<Rightarrow> bool" where
  "is_progress (Print (MsgProgress i n t)) = True"
| "is_progress e = False"

text \<open>The progress lines of the posts \<open>es\<close>, numbered from \<open>i\<close>, out of \<open>n\<close>.\<close>

fun progress_lines :: "nat \<Rightarrow> nat \<Rightarrow> entry list \<Rightarrow> event list" where
  "progress_lines i n [] = []"
| "progress_lines i n (e # es) =
     Print (MsgProgress i n (take 50 (get_or (e_title e) ''(untitled)'')))
     # progress_lines (i + 1) n es"

subsection \<open>Example worlds\<close>

definition empty_world :: world where
  "empty_world = \<lparr>files = Map.empty, dirs = {}, trace = []\<rparr>"

definition sample_entry :: "nat \<Rightarrow> entry" where
  "sample_entry k =
     \<lparr>e_id = None, e_title = Some (replicate k CHR ''x''), e_published = None,
      e_content = None, e_summary = None, e_author_detail = None\<rparr>"

definition sample_page :: "nat \<Rightarrow> nat \<Rightarrow> link list \<Rightarrow> feed" where
  "sample_page a b ls = \<lparr>f_bozo = None, f_entries = map sample_entry [a..<b], f_links = Some ls\<rparr>"

definition next_link :: "string \<Rightarrow> link" where
  "next_link u = \<lparr>l_rel = Some ''next'', l_href = Some u\<rparr>"

definition self_link :: "string \<Rightarrow> link" where
  "self_link u = \<lparr>l_rel = Some ''self'', l_href = Some u\<rparr>"

text \<open>A feed of three pages with 25, 25 and 10 entries; only the first two link on.\<close>

definition three_pages :: "(string \<times> feed) list" where
  "three_pages =
     [(start_url, sample_page 0 25 [self_link start_url, next_link ''page2'']),
      (''page2'', sample_page 25 50 [self_link ''page2'', next_link ''page3'']),
      (''page3'', sample_page 50 60 [self_link ''page3''])]"

definition three_page_env :: "unit env" where
  "three_page_env =
     \<lparr>feedparser_parse = (\<lambda>u. case map_of three_pages u of
                                 Some fd \<Rightarrow> Inr fd
                               | None \<Rightarrow> Inl (Exn ''unknown host'')),
      fromisoformat = (\<lambda>s. None),
      strftime = (\<lambda>dt fmt. fmt),
      slugify = (\<lambda>s n. take n s),
      markdownify = (\<lambda>h. Inr h),
      makedirs_fault = (\<lambda>p. None),
      open_fault = (\<lambda>p. None)\<rparr>"

text \<open>
  A small blog. Timestamps are kept as the first sixteen characters of the ISO text; the
  stand-ins for the date, slug and markdown libraries are just enough to run the script.
\<close>

definition demo_fromisoformat :: "string \<Rightarrow> string option" where
  "demo_fromisoformat s = (if length s = 25 \<and> drop 19 s = ''+00:00'' then Some (take 16 s) else None)"

definition demo_strftime :: "string \<Rightarrow> string \<Rightarrow> string" where
  "demo_strftime dt fmt =
     (if fmt = ''%Y'' then take 4 dt
      else if fmt = ''%Y-%m-%d-%H-%M''
        then map (\<lambda>c. if c = CHR ''T'' \<or> c = CHR '':'' then CHR ''-'' else c) dt
      else if fmt = ''%Y-%m-%d %H:%M''
        then map (\<lambda>c. if c = CHR ''T'' then CHR '' '' else c) dt
      else [])"

definition demo_slugify :: "string \<Rightarrow> nat \<Rightarrow> string" where
  "demo_slugify s n = take n (map (\<lambda>c. if isspace c then CHR ''-'' else c) s)"

text \<open>The stand-in converter drops the tags and keeps the text between them.\<close>

fun drop_tags :: "bool \<Rightarrow> string \<Rightarrow> string" where
  "drop_tags inside [] = []"
| "drop_tags inside (c # cs) =
     (if c = CHR ''<'' then drop_tags True cs
      else if c = CHR ''>'' then drop_tags False cs
      else if inside then drop_tags True cs
      else c # drop_tags False cs)"

definition demo_markdownify :: "string \<Rightarrow> exn + string" where
  "demo_markdownify h =
     (if h = ''<broken'' then Inl (Exn ''parse error'') else Inr (drop_tags False h))"

definition post_a :: entry where
  "post_a =
     \<lparr>e_id = Some ''blog-1.post-7'', e_title = Some '' Hello '',
      e_published = Some ''2024-01-02T03:04:05Z'', e_content = Some [Some ''<p>Hi</p>''],
      e_summary = Some ''short'', e_author_detail = None\<rparr>"

definition post_undated :: entry where
  "post_undated =
     \<lparr>e_id = Some ''blog-1.post-8'', e_title = Some ''Lost'',
      e_published = Some ''yesterday'', e_content = None,
      e_summary = Some ''text'', e_author_detail = None\<rparr>"

definition post_broken :: entry where
  "post_broken =
     \<lparr>e_id = None, e_title = Some ''Bad'',
      e_published = Some ''2024-01-05T06:07:08Z'', e_content = Some [Some ''<broken''],
      e_summary = None, e_author_detail = None\<rparr>"

definition post_plain :: entry where
  "post_plain =
     \<lparr>e_id = None, e_title = None,
      e_published = Some ''2023-12-31T23:59:00Z'', e_content = None,
      e_summary = Some ''Bye'', e_author_detail = None\<rparr>"

text \<open>An entry whose content block has no \<^verbatim>\<open>value\<close>.\<close>

definition post_valueless :: entry where
  "post_valueless =
     \<lparr>e_id = None, e_title = Some ''Empty'',
      e_published = Some ''2024-02-03T04:05:06Z'', e_content = Some [None],
      e_summary = Some ''unused'', e_author_detail = None\<rparr>"

definition comment_ann :: entry where
  "comment_ann =
     \<lparr>e_id = None, e_title = None,
      e_published = Some ''2024-01-03T10:00:00Z'', e_content = Some [Some ''<b>First</b>''],
      e_summary = None, e_author_detail = Some (Some ''Ann'')\<rparr>"

definition comment_undated :: entry where
  "comment_undated =
     \<lparr>e_id = None, e_title = None,
      e_published = Some ''soon'', e_content = None,
      e_summary = Some ''Second'', e_author_detail = None\<rparr>"

definition demo_feed :: feed where
  "demo_feed =
     \<lparr>f_bozo = None, f_entries = [post_a, post_undated, post_broken, post_plain],
      f_links = None\<rparr>"

text \<open>The comment feed of post 7: flagged by the parser, and yet with two entries.\<close>

definition demo_comments :: feed where
  "demo_comments =
     \<lparr>f_bozo = Some (Exn ''encoding overridden''), f_entries = [comment_ann, comment_undated],
      f_links = None\<rparr>"

definition demo_env :: "string env" where
  "demo_env =
     \<lparr>feedparser_parse =
        (\<lambda>u. if u = start_url then Inr demo_feed
             else if u = comments_url ''7'' then Inr demo_comments
             else Inl (Exn ''unknown host'')),
      fromisoformat = demo_fromisoformat,
      strftime = demo_strftime,
      slugify = demo_slugify,
      markdownify = demo_markdownify,
      makedirs_fault = (\<lambda>p. None),
      open_fault = (\<lambda>p. None)\<rparr>"

text \<open>The same script against a host that serves nothing.\<close>

definition silent_feed :: feed where
  "silent_feed = \<lparr>f_bozo = Some (Exn ''timed out''), f_entries = [], f_links = None\<rparr>"

definition silent_env :: "string env" where
  "silent_env = demo_env\<lparr>feedparser_parse := (\<lambda>u. Inr silent_feed)\<rparr>"

text \<open>The world after one run of the script on the small blog, started in the empty world.\<close>

definition demo_final :: world where
  "demo_final =
     \<lparr>files =
        [''posts/2024/2024-01-02-03-04-Hello/index.md'' \<mapsto> ''# Hello\<newline>\<newline>Hi\<newline>'',
         ''posts/2024/2024-01-02-03-04-Hello/comments.md'' \<mapsto>
           ''# Comments\<newline>\<newline>## Ann - 2024-01-03 10:00\<newline>\<newline>First\<newline>\<newline>---\<newline>\<newline>## Anonymous - soon\<newline>\<newline>Second\<newline>\<newline>'',
         ''posts/2023/2023-12-31-23-59/index.md'' \<mapsto> ''Bye\<newline>''],
      dirs =
        {''posts'', ''posts/2024'', ''posts/2024/2024-01-02-03-04-Hello'',
         ''posts/2024/2024-01-05-06-07-Bad'', ''posts/2023'', ''posts/2023/2023-12-31-23-59''},
      trace =
        [Print MsgStart, Print (MsgFetching start_url), Fetch start_url,
         Print (MsgFound 4 4), Print (MsgTotal 4), Print MsgProcessing,
         Print (MsgProgress 1 4 '' Hello ''), Sleep, Fetch (comments_url ''7''),
         Print (MsgFolder ''posts/2024/2024-01-02-03-04-Hello''),
         Print (MsgProgress 2 4 ''Lost''), Print (MsgSkip ''yesterday''),
         Print (MsgProgress 3 4 ''Bad''), Print (MsgError (Exn ''parse error'')),
         Print (MsgProgress 4 4 ''(untitled)''),
         Print (MsgFolder ''posts/2023/2023-12-31-23-59''), Print MsgDone]\<rparr>"

section \<open>Properties\<close>

subsection \<open>Pagination walker\<close>

lemma emit_emit: "emit b (emit a w) = emit (a @ b) w"
  by (simp add: emit_def)

lemma emit_Nil: "emit [] w = w"
  by (simp add: emit_def)

lemma failed_entries: "failed fd \<Longrightarrow> f_entries fd = []"
  by (simp add: failed_def)

lemma fetch_loop_stop: "\<not> truthy url \<Longrightarrow> fetch_loop env url posts w = Some (Inr posts, w)"
  by (subst fetch_loop.simps) (auto split: option.splits)

lemma fetch_loop_raise:
  "u \<noteq> [] \<Longrightarrow> feedparser_parse env u = Inl ex \<Longrightarrow>
   fetch_loop env (Some u) posts w = Some (Inl ex, emit [Print (MsgFetching u), Fetch u] w)"
  by (subst fetch_loop.simps) simp

lemma fetch_loop_abort:
  "u \<noteq> [] \<Longrightarrow> feedparser_parse env u = Inr fd \<Longrightarrow> failed fd \<Longrightarrow>
   fetch_loop env (Some u) posts w =
     Some (Inr posts, emit [Print (MsgFetching u), Fetch u, Print (MsgFeedError (f_bozo fd))] w)"
  by (subst fetch_loop.simps) (simp add: failed_def)

lemma fetch_loop_step:
  "u \<noteq> [] \<Longrightarrow> feedparser_parse env u = Inr fd \<Longrightarrow> \<not> failed fd \<Longrightarrow>
   fetch_loop env (Some u) posts w =
     fetch_loop env (next_url fd) (posts @ f_entries fd)
       (emit ([Print (MsgFetching u), Fetch u,
               Print (MsgFound (length (f_entries fd)) (length (posts @ f_entries fd)))]
              @ (if truthy (next_url fd) then [Sleep] else [])) w)"
  by (subst fetch_loop.simps) (auto simp: failed_def)

lemma page_chain_url: "page_chain env ((u, fd) # rest) \<Longrightarrow> u \<noteq> []"
  by (cases rest) auto

lemma fetch_loop_chain:
  "page_chain env ch \<Longrightarrow>
   fetch_loop env (Some (fst (hd ch))) posts w =
     Some (Inr (posts @ concat (map (\<lambda>p. f_entries (snd p)) ch)),
           emit (walk_trace (length posts) ch) w)"
proof (induction env ch arbitrary: posts w rule: page_chain.induct)
  case (1 env)
  then show ?case by simp
next
  case (2 env u fd)
  then have u: "u \<noteq> []" and p: "feedparser_parse env u = Inr fd" by simp_all
  show ?case
  proof (cases "failed fd")
    case True
    then show ?thesis
      by (simp add: fetch_loop_abort[OF u p True] failed_entries[OF True])
  next
    case False
    with 2 have n: "\<not> truthy (next_url fd)" by simp
    from False show ?thesis
      by (simp add: fetch_loop_step[OF u p False] fetch_loop_stop[OF n] n)
  qed
next
  case (3 env u fd u' fd' rest)
  from "3.prems" have c: "page_chain env ((u', fd') # rest)" and nf: "\<not> failed fd"
    and p: "feedparser_parse env u = Inr fd" and n: "next_url fd = Some u'" and u: "u \<noteq> []"
    by simp_all
  from c have u': "u' \<noteq> []" by (rule page_chain_url)
  let ?w1 = "emit [Print (MsgFetching u), Fetch u,
                 Print (MsgFound (length (f_entries fd)) (length (posts @ f_entries fd))), Sleep] w"
  have "fetch_loop env (Some u) posts w = fetch_loop env (Some u') (posts @ f_entries fd) ?w1"
    by (simp add: fetch_loop_step[OF u p nf] n u')
  also have "\<dots> = Some (Inr ((posts @ f_entries fd) @
                      concat (map (\<lambda>p. f_entries (snd p)) ((u', fd') # rest))),
                   emit (walk_trace (length (posts @ f_entries fd)) ((u', fd') # rest)) ?w1)"
    using "3.IH"[OF c, of "posts @ f_entries fd" ?w1] by simp
  finally show ?case
    by (simp add: emit_emit)
qed

lemma walk_trace_io:
  "ch \<noteq> [] \<Longrightarrow> filter (\<lambda>e. \<not> is_print e) (walk_trace k ch) = expected_io (map fst ch)"
  by (induction k ch rule: walk_trace.induct) auto

lemma walk_trace_sleeps:
  "length (filter (\<lambda>e. e = Sleep) (walk_trace k ch)) = length ch - 1"
  by (induction k ch rule: walk_trace.induct) auto

lemma next_url_no_next:
  "\<forall>l \<in> set (get_or (f_links fd) []). l_rel l \<noteq> Some ''next'' \<Longrightarrow> next_url fd = None"
proof -
  assume "\<forall>l \<in> set (get_or (f_links fd) []). l_rel l \<noteq> Some ''next''"
  then have "find (\<lambda>l. l_rel l = Some ''next'') (case f_links fd of None \<Rightarrow> [] | Some ls \<Rightarrow> ls) = None"
    by (cases "f_links fd") (auto simp: find_None_iff get_or_def)
  then show ?thesis
    by (simp add: next_url_def)
qed

text \<open>
  Claim C1. Whenever the feed is a chain of pages, each linking to the next, that ends
  with a page without usable next link or with a failed page (flagged by the parser and
  without entries), \<^verbatim>\<open>fetch_all_posts\<close> returns, without raising, the entries of all fetched
  pages concatenated in page order (a failed last page contributes none). Its requests and
  delays are: request, delay, request, ..., request, so a walk over \<open>N\<close> pages sleeps
  \<open>N - 1\<close> times, once before each request after the first. It changes no file and no
  directory. A page none of whose links has relation \<^verbatim>\<open>next\<close> has no next URL, so it ends
  the chain. (A request that raises instead of returning a page is not part of a chain of
  pages; the walker does not catch it, see \<open>fetch_loop_raise\<close>.)
\<close>

theorem fetch_all_posts_chain:
  assumes "page_chain env ((start_url, fd) # rest)"
  shows "fetch_all_posts env w =
           Some (Inr (concat (map (\<lambda>p. f_entries (snd p)) ((start_url, fd) # rest))),
                 emit (walk_trace 0 ((start_url, fd) # rest)) w)
         \<and> filter (\<lambda>e. \<not> is_print e) (walk_trace 0 ((start_url, fd) # rest))
             = expected_io (map fst ((start_url, fd) # rest))
         \<and> length (filter (\<lambda>e. e = Sleep) (walk_trace 0 ((start_url, fd) # rest)))
             = length ((start_url, fd) # rest) - 1
         \<and> files (emit (walk_trace 0 ((start_url, fd) # rest)) w) = files w
         \<and> dirs (emit (walk_trace 0 ((start_url, fd) # rest)) w) = dirs w
         \<and> ((\<forall>l \<in> set (get_or (f_links (snd (last ((start_url, fd) # rest)))) []).
                 l_rel l \<noteq> Some ''next'')
             \<longrightarrow> next_url (snd (last ((start_url, fd) # rest))) = None)"
proof (intro conjI)
  show "fetch_all_posts env w =
           Some (Inr (concat (map (\<lambda>p. f_entries (snd p)) ((start_url, fd) # rest))),
                 emit (walk_trace 0 ((start_url, fd) # rest)) w)"
    using fetch_loop_chain[OF assms, of "[]" w]
    by (simp add: fetch_all_posts_def start_url_def)
  show "filter (\<lambda>e. \<not> is_print e) (walk_trace 0 ((start_url, fd) # rest))
             = expected_io (map fst ((start_url, fd) # rest))"
    by (rule walk_trace_io) simp
  show "length (filter (\<lambda>e. e = Sleep) (walk_trace 0 ((start_url, fd) # rest)))
             = length ((start_url, fd) # rest) - 1"
    by (rule walk_trace_sleeps)
  show "files (emit (walk_trace 0 ((start_url, fd) # rest)) w) = files w"
    by (simp add: emit_def)
  show "dirs (emit (walk_trace 0 ((start_url, fd) # rest)) w) = dirs w"
    by (simp add: emit_def)
  show "(\<forall>l \<in> set (get_or (f_links (snd (last ((start_url, fd) # rest)))) []).
               l_rel l \<noteq> Some ''next'')
             \<longrightarrow> next_url (snd (last ((start_url, fd) # rest))) = None"
    by (rule impI, rule next_url_no_next)
qed

lemma three_pages_chain: "page_chain three_page_env three_pages"
  by (simp add: three_pages_def three_page_env_def sample_page_def next_link_def self_link_def
       next_url_def failed_def start_url_def BLOG_FEED_URL_def MAX_RESULTS_PER_PAGE_def)

lemma three_pages_entries:
  "concat (map (\<lambda>p. f_entries (snd p)) three_pages) = map sample_entry [0..<60]"
proof -
  have "[0..<60] = [0..<25] @ [25..<50] @ [50..<60::nat]"
    by (simp add: upt_rec)
  then show ?thesis
    by (simp add: three_pages_def sample_page_def)
qed

text \<open>
  The theorem at the feed of three pages with 25, 25 and 10 entries: 60 entries in page
  order, two delays.
\<close>

theorem fetch_all_posts_chain_witness:
  "page_chain three_page_env three_pages
   \<and> fetch_all_posts three_page_env empty_world =
       Some (Inr (map sample_entry [0..<60]), emit (walk_trace 0 three_pages) empty_world)
   \<and> length (map sample_entry [0..<60]) = 60
   \<and> filter (\<lambda>e. \<not> is_print e) (walk_trace 0 three_pages)
       = [Fetch start_url, Sleep, Fetch ''page2'', Sleep, Fetch ''page3'']
   \<and> length (filter (\<lambda>e. e = Sleep) (walk_trace 0 three_pages)) = 2
   \<and> map l_rel (get_or (f_links (snd (last three_pages))) []) = [Some ''self'']
   \<and> next_url (snd (last three_pages)) = None"
proof -
  have h: "page_chain three_page_env
             ((start_url, sample_page 0 25 [self_link start_url, next_link ''page2'']) #
              [(''page2'', sample_page 25 50 [self_link ''page2'', next_link ''page3'']),
               (''page3'', sample_page 50 60 [self_link ''page3''])])"
    using three_pages_chain by (simp add: three_pages_def)
  have io: "expected_io (map fst three_pages)
              = [Fetch start_url, Sleep, Fetch ''page2'', Sleep, Fetch ''page3'']"
    and len: "length three_pages = 3"
    and nn: "\<forall>l \<in> set (get_or (f_links (snd (last three_pages))) []). l_rel l \<noteq> Some ''next''"
    and ls: "map l_rel (get_or (f_links (snd (last three_pages))) []) = [Some ''self'']"
    by (simp_all add: three_pages_def sample_page_def self_link_def get_or_def)
  show ?thesis
    using fetch_all_posts_chain[OF h, of empty_world] three_pages_chain three_pages_entries nn
    by (simp add: three_pages_def[symmetric] io len ls)
qed

subsection \<open>Effects only add to the world\<close>

lemma emit_effect: "emit evs w = apply_effect (Map.empty, {}, evs) w"
  by (simp add: emit_def)

lemma map_add_twice: "m ++ f ++ f = m ++ f"
  by (rule ext) (simp add: map_add_def split: option.split)

lemma apply_effect_same_files:
  "files (apply_effect a (apply_effect a w)) = files (apply_effect a w)"
  by (cases a) (simp add: map_add_twice)

lemma apply_effect_same_dirs:
  "dirs (apply_effect a (apply_effect a w)) = dirs (apply_effect a w)"
  by (cases a) auto

lemma mkdirs_indep:
  "\<exists>r D. \<forall>w. mkdirs env ds w = (r, apply_effect (Map.empty, D, []) w)"
proof (induction ds)
  case Nil
  show ?case
    by (intro exI[of _ None] exI[of _ "{}"]) simp
next
  case (Cons d ds)
  show ?case
  proof (cases "makedirs_fault env d")
    case (Some ex)
    then show ?thesis
      by (intro exI[of _ "Some ex"] exI[of _ "{}"]) simp
  next
    case None
    from Cons.IH obtain r D where
      "\<And>w. mkdirs env ds w = (r, apply_effect (Map.empty, D, []) w)" by blast
    with None show ?thesis
      by (intro exI[of _ r] exI[of _ "insert d D"]) simp
  qed
qed

lemma makedirs_indep:
  "\<exists>r D. \<forall>w. makedirs env p w = (r, apply_effect (Map.empty, D, []) w)"
  unfolding makedirs_def by (rule mkdirs_indep)

lemma mkdirs_made:
  "mkdirs env ds w = (None, w') \<Longrightarrow> w' = w\<lparr>dirs := dirs w \<union> set ds\<rparr>"
proof (induction ds arbitrary: w)
  case Nil
  then show ?case by simp
next
  case (Cons d ds)
  show ?case
  proof (cases "makedirs_fault env d")
    case (Some ex)
    with Cons.prems show ?thesis by simp
  next
    case None
    with Cons.prems have "mkdirs env ds (w\<lparr>dirs := insert d (dirs w)\<rparr>) = (None, w')"
      by simp
    from Cons.IH[OF this] show ?thesis by simp
  qed
qed

lemma makedirs_made:
  "fst (makedirs env p w) = None \<Longrightarrow>
   makedirs env p w = (None, w\<lparr>dirs := dirs w \<union> set (dir_chain p)\<rparr>)"
  using mkdirs_made[of env "dir_chain p" w "snd (makedirs env p w)"]
  by (cases "makedirs env p w") (simp add: makedirs_def)

lemma dir_chain_OUTPUT_DIR: "dir_chain OUTPUT_DIR = [OUTPUT_DIR]"
  unfolding OUTPUT_DIR_def by code_simp

lemma fetch_comments_indep:
  "\<exists>cs evs. (\<forall>w. fetch_comments env post_id w = (cs, emit evs w)) \<and> filter is_progress evs = []"
  apply (rule exI[of _ "fst (fetch_comments env post_id empty_world)"])
  apply (rule exI[of _ "trace (snd (fetch_comments env post_id empty_world))"])
  apply (simp add: fetch_comments_def emit_def empty_world_def Let_def
              split: option.splits sum.splits)
  done

lemma process_post_comments_indep:
  "\<exists>r fs evs. (\<forall>w. process_post_comments env e folder w = (r, apply_effect (fs, {}, evs) w))
             \<and> filter is_progress evs = []"
proof -
  obtain cs evs where fc: "\<And>w. fetch_comments env (extract_post_id e) w = (cs, emit evs w)"
    and np: "filter is_progress evs = []"
    using fetch_comments_indep by blast
  show ?thesis
    apply (rule exI[of _ "fst (process_post_comments env e folder empty_world)"])
    apply (rule exI[of _ "files (snd (process_post_comments env e folder empty_world))"])
    apply (rule exI[of _ "trace (snd (process_post_comments env e folder empty_world))"])
    apply (simp add: process_post_comments_def fc np Let_def emit_def empty_world_def
                split: option.splits prod.splits)
    done
qed

lemma process_post_indep:
  "\<exists>r eff. (\<forall>w. process_post env e base w = (r, apply_effect eff w))
           \<and> filter is_progress (snd (snd eff)) = []"
proof -
  have pc: "\<exists>r fs evs. (\<forall>w. process_post_comments env e folder w = (r, apply_effect (fs, {}, evs) w))
             \<and> filter is_progress evs = []" for folder
    by (rule process_post_comments_indep)
  show ?thesis
  proof (cases "parse_datetime env (get_or (e_published e) [])")
    case None
    then show ?thesis
      apply (intro exI[of _ "Inr None"] exI[of _ "(Map.empty, {}, [Print (MsgSkip (get_or (e_published e) []))])"])
      apply (simp add: process_post_def emit_def)
      done
  next
    case pd: (Some dt)
    let ?folder = "os_path_join base [strftime env dt ''%Y'',
                     generate_folder_name env dt (strip (get_or (e_title e) []))]"
    from pc[of ?folder] obtain r fs evs where
      c: "\<And>w. process_post_comments env e ?folder w = (r, apply_effect (fs, {}, evs) w)"
      and np: "filter is_progress evs = []" by blast
    from makedirs_indep[of env ?folder] obtain mr D where
      mk: "\<And>w. makedirs env ?folder w = (mr, apply_effect (Map.empty, D, []) w)" by blast
    let ?index = "os_path_join ?folder [''index.md'']"
    let ?res = "case r of Some ex \<Rightarrow> Inl ex | None \<Rightarrow> Inr (Some ?folder)"
    show ?thesis
    proof (cases mr)
      case (Some ex)
      show ?thesis
        apply (intro exI[of _ "Inl ex"] exI[of _ "(Map.empty, D, [])"])
        apply (simp add: process_post_def pd Let_def mk Some)
        done
    next
      case None
      show ?thesis
      proof (cases "html_to_markdown env (Some (entry_content e))")
        case md: (Inl ex)
        show ?thesis
          apply (intro exI[of _ "Inl ex"] exI[of _ "(Map.empty, D, [])"])
          apply (simp add: process_post_def pd Let_def mk None md)
          done
      next
        case md: (Inr m)
        let ?text = "(if strip (get_or (e_title e) []) \<noteq> []
                      then ''# '' @ strip (get_or (e_title e) []) @ ''\<newline>\<newline>'' else [])
                     @ strip m @ ''\<newline>''"
        show ?thesis
        proof (cases "open_fault env ?index")
          case op: (Some ex)
          show ?thesis
            apply (intro exI[of _ "Inl ex"] exI[of _ "(Map.empty, D, [])"])
            apply (simp add: process_post_def pd Let_def mk None write_file_def md op)
            done
        next
          case op: None
          show ?thesis
            apply (intro exI[of _ ?res] exI[of _ "([?index \<mapsto> ?text] ++ fs, D, evs)"])
            apply (cases r)
             apply (simp_all add: process_post_def pd Let_def mk None write_file_def
                        md op c np split del: if_split)
            done
        qed
      qed
    qed
  qed
qed

lemma process_posts_indep:
  "\<exists>fs ds evs. (\<forall>w. process_posts env i n es w = apply_effect (fs, ds, evs) w)
         \<and> filter is_progress evs = progress_lines i n es"
proof (induction es arbitrary: i)
  case Nil
  show ?case
    by (intro exI[of _ "Map.empty"] exI[of _ "{}"] exI[of _ "[]"]) simp
next
  case (Cons e rest)
  let ?p = "Print (MsgProgress i n (take 50 (get_or (e_title e) ''(untitled)'')))"
  from process_post_indep[of env e OUTPUT_DIR] obtain r fs1 ds1 evs1 where
    p: "\<And>w. process_post env e OUTPUT_DIR w = (r, apply_effect (fs1, ds1, evs1) w)"
    and np: "filter is_progress evs1 = []" by force
  from Cons.IH[of "Suc i"] obtain fs2 ds2 evs2 where
    q: "\<And>w. process_posts env (Suc i) n rest w = apply_effect (fs2, ds2, evs2) w"
    and pl: "filter is_progress evs2 = progress_lines (Suc i) n rest" by blast
  let ?after = "case r of Inl ex \<Rightarrow> [Print (MsgError ex)]
                | Inr folder \<Rightarrow> if truthy folder then [Print (MsgFolder (get_or folder []))] else []"
  have "process_posts env i n (e # rest) w
          = apply_effect (fs1 ++ fs2, ds1 \<union> ds2, ?p # evs1 @ ?after @ evs2) w" for w
    by (cases r) (simp_all add: p q emit_def Un_assoc)
  moreover have "filter is_progress (?p # evs1 @ ?after @ evs2) = progress_lines i n (e # rest)"
    using np pl by (cases r) auto
  ultimately show ?case by blast
qed

lemma fetch_loop_indep:
  assumes "fetch_loop env url posts w = Some y"
  shows "\<exists>evs. snd y = emit evs w \<and> (\<forall>v. fetch_loop env url posts v = Some (fst y, emit evs v))"
proof (rule fetch_loop.raw_induct[where P = "\<lambda>env url posts w y.
          \<exists>evs. snd y = emit evs w \<and> (\<forall>v. fetch_loop env url posts v = Some (fst y, emit evs v))",
        OF _ assms])
  fix fl :: "'a env \<Rightarrow> string option \<Rightarrow> entry list \<Rightarrow> world \<Rightarrow> ((exn + entry list) \<times> world) option"
  fix env :: "'a env" and url posts w y
  assume 1: "\<And>env url posts w y. fl env url posts w = Some y \<Longrightarrow>
               \<exists>evs. snd y = emit evs w \<and> (\<forall>v. fetch_loop env url posts v = Some (fst y, emit evs v))"
    "(case url of
        None \<Rightarrow> Some (Inr posts, w)
      | Some u \<Rightarrow>
          if u = [] then Some (Inr posts, w)
          else
            (case feedparser_parse env u of
               Inl ex \<Rightarrow> Some (Inl ex, emit [Print (MsgFetching u), Fetch u] w)
             | Inr fd \<Rightarrow>
                 if f_bozo fd \<noteq> None \<and> f_entries fd = [] then
                   Some (Inr posts,
                         emit [Print (MsgFetching u), Fetch u, Print (MsgFeedError (f_bozo fd))] w)
                 else
                   fl env (next_url fd) (posts @ f_entries fd)
                     (emit ([Print (MsgFetching u), Fetch u,
                             Print (MsgFound (length (f_entries fd))
                                             (length (posts @ f_entries fd)))]
                            @ (if truthy (next_url fd) then [Sleep] else [])) w))) = Some y"
  show "\<exists>evs. snd y = emit evs w \<and> (\<forall>v. fetch_loop env url posts v = Some (fst y, emit evs v))"
  proof (cases "truthy url")
    case False
    with 1(2) have "y = (Inr posts, w)"
      by (cases url) auto
    then show ?thesis
      by (intro exI[of _ "[]"]) (simp add: fetch_loop_stop[OF False] emit_Nil)
  next
    case True
    then obtain u where u: "url = Some u" "u \<noteq> []"
      by (cases url) auto
    show ?thesis
    proof (cases "feedparser_parse env u")
      case (Inl ex)
      with 1(2) u have "y = (Inl ex, emit [Print (MsgFetching u), Fetch u] w)"
        by simp
      then show ?thesis
        by (intro exI[of _ "[Print (MsgFetching u), Fetch u]"])
           (simp add: u fetch_loop_raise[OF u(2) Inl])
    next
      case (Inr fd)
      show ?thesis
      proof (cases "failed fd")
        case True
        with 1(2) u Inr
        have "y = (Inr posts,
                   emit [Print (MsgFetching u), Fetch u, Print (MsgFeedError (f_bozo fd))] w)"
          by (simp add: failed_def)
        then show ?thesis
          by (intro exI[of _ "[Print (MsgFetching u), Fetch u, Print (MsgFeedError (f_bozo fd))]"])
             (simp add: u fetch_loop_abort[OF u(2) Inr True])
      next
        case False
        let ?X = "[Print (MsgFetching u), Fetch u,
                   Print (MsgFound (length (f_entries fd)) (length (posts @ f_entries fd)))]
                  @ (if truthy (next_url fd) then [Sleep] else [])"
        from 1(2) u Inr False
        have "fl env (next_url fd) (posts @ f_entries fd) (emit ?X w) = Some y"
          by (auto simp: failed_def)
        from 1(1)[OF this] obtain evs where
          e: "snd y = emit evs (emit ?X w)"
          and a: "\<And>v. fetch_loop env (next_url fd) (posts @ f_entries fd) v
                       = Some (fst y, emit evs v)"
          by blast
        show ?thesis
          apply (intro exI[of _ "?X @ evs"] conjI allI)
           apply (simp add: e emit_emit)
          apply (simp only: u fetch_loop_step[OF u(2) Inr False] a emit_emit)
          done
      qed
    qed
  qed
qed

lemma main_indep:
  assumes "main env w = Some (r, w')"
  shows "\<exists>eff. w' = apply_effect eff w \<and> (\<forall>v. main env v = Some (r, apply_effect eff v))"
proof -
  from assms obtain y where
    f: "fetch_all_posts env (emit [Print MsgStart] w) = Some y"
    by (auto simp: main_def split: option.splits)
  from fetch_loop_indep[OF f[unfolded fetch_all_posts_def]] obtain evs where
    e: "snd y = emit evs (emit [Print MsgStart] w)"
    and a: "\<And>v. fetch_all_posts env v = Some (fst y, emit evs v)"
    by (auto simp: fetch_all_posts_def)
  then have f': "fetch_all_posts env (emit [Print MsgStart] v)
                  = Some (fst y, emit ([Print MsgStart] @ evs) v)" for v
    by (simp add: emit_emit)
  show ?thesis
  proof (cases "fst y")
    case (Inl ex)
    with assms f' show ?thesis
      by (intro exI[of _ "(Map.empty, {}, [Print MsgStart] @ evs)"])
         (auto simp: main_def emit_effect)
  next
    case (Inr posts)
    show ?thesis
    proof (cases "posts = []")
      case True
      with assms f' Inr show ?thesis
        by (intro exI[of _ "(Map.empty, {},
                 ([Print MsgStart] @ evs) @ [Print (MsgTotal (length posts)), Print MsgNoPosts])"])
           (auto simp: main_def emit_emit emit_effect simp del: append.simps)
    next
      case False
      show ?thesis
      proof -
        from makedirs_indep[of env OUTPUT_DIR] obtain mr D where
          mk: "\<And>w. makedirs env OUTPUT_DIR w = (mr, apply_effect (Map.empty, D, []) w)"
          by blast
        show ?thesis
        proof (cases mr)
          case (Some ex)
          let ?eff = "(Map.empty :: path \<rightharpoonup> string, D,
                       [Print MsgStart] @ evs @ [Print (MsgTotal (length posts))])"
          have "main env v = Some (Inl ex, apply_effect ?eff v)" for v
            using f' Inr False Some
            by (simp add: main_def mk emit_def)
          with assms show ?thesis
            by (intro exI[of _ ?eff]) auto
        next
          case None
          from process_posts_indep[of env "Suc 0" "length posts" posts] obtain fs ds evs' where
            p: "\<And>w. process_posts env (Suc 0) (length posts) posts w
                       = apply_effect (fs, ds, evs') w"
            by blast
          let ?eff = "(fs, D \<union> ds,
                       [Print MsgStart] @ evs @ [Print (MsgTotal (length posts)), Print MsgProcessing]
                         @ evs' @ [Print MsgDone])"
          have "main env v = Some (Inr PyNone, apply_effect ?eff v)" for v
            using f' Inr False None
            by (simp add: main_def mk p emit_def Un_assoc)
          with assms show ?thesis
            by (intro exI[of _ ?eff]) auto
        qed
      qed
    qed
  qed
qed

subsection \<open>The comments document\<close>

lemma index_neq_comments:
  "os_path_join folder [''index.md''] \<noteq> os_path_join folder [''comments.md'']"
  by (simp add: os_path_join_def join2_def)

lemma rendered_eq: "html_to_markdown env (Some h) = Inr m \<Longrightarrow> rendered env h = m"
  by (auto simp: html_to_markdown_def rendered_def split: if_splits)

lemma write_comments_done:
  "write_comments env i (i + length cs) cs f = (t, None) \<Longrightarrow>
   t = f @ join_sections (map (comment_section env) cs)"
proof (induction cs arbitrary: i f)
  case Nil
  then show ?case by simp
next
  case (Cons c rest)
  show ?case
  proof (cases "html_to_markdown env (Some (entry_content c))")
    case (Inl ex)
    with Cons.prems show ?thesis by (simp add: Let_def)
  next
    case (Inr m)
    let ?sec = "''## '' @ comment_author c @ '' - ''
                @ format_comment_date env (get_or (e_published c) []) @ ''\<newline>\<newline>''
                @ strip m @ ''\<newline>\<newline>''"
    have sec: "comment_section env c = ?sec"
      by (simp add: comment_section_def comment_author_def rendered_eq[OF Inr] get_or_def
               split: option.splits)
    have last: "(int i < int (i + length (c # rest)) - 1) = (rest \<noteq> [])"
      by (cases rest) auto
    show ?thesis
    proof (cases "rest = []")
      case True
      with Cons.prems Inr show ?thesis
        by (simp add: Let_def sec)
    next
      case False
      with Cons.prems Inr last
      have "write_comments env (Suc i) (Suc i + length rest) rest
              (f @ ?sec @ ''---\<newline>\<newline>'') = (t, None)"
        by (simp add: Let_def)
      from Cons.IH[OF this] False
      show ?thesis
        by (cases rest) (simp_all add: sec)
    qed
  qed
qed

lemma write_comments_rendered:
  "write_comments env i n cs f = (t, None) \<Longrightarrow> c \<in> set cs \<Longrightarrow>
   html_to_markdown env (Some (entry_content c)) = Inr (rendered env (entry_content c))"
proof (induction cs arbitrary: i f)
  case Nil
  then show ?case by simp
next
  case (Cons a rest)
  show ?case
  proof (cases "html_to_markdown env (Some (entry_content a))")
    case (Inl ex)
    with Cons.prems show ?thesis by (simp add: Let_def)
  next
    case (Inr m)
    show ?thesis
    proof (cases "c = a")
      case True
      with Inr show ?thesis by (simp add: rendered_eq)
    next
      case False
      with Cons.prems Inr Cons.IH show ?thesis
        by (auto simp: Let_def)
    qed
  qed
qed

lemma process_post_comments_files:
  assumes "process_post_comments env e folder w = (None, w')"
  shows "dirs w' = dirs w
    \<and> (\<forall>p. p \<noteq> os_path_join folder [''comments.md''] \<longrightarrow> files w' p = files w p)
    \<and> (fst (fetch_comments env (extract_post_id e) v) = [] \<longrightarrow>
          files w' (os_path_join folder [''comments.md''])
            = files w (os_path_join folder [''comments.md'']))
    \<and> (fst (fetch_comments env (extract_post_id e) v) \<noteq> [] \<longrightarrow>
          files w' (os_path_join folder [''comments.md''])
            = Some (comments_document env (fst (fetch_comments env (extract_post_id e) v))))
    \<and> (\<forall>c \<in> set (fst (fetch_comments env (extract_post_id e) v)).
          html_to_markdown env (Some (entry_content c)) = Inr (rendered env (entry_content c)))"
proof -
  obtain cs evs where fc: "\<And>w. fetch_comments env (extract_post_id e) w = (cs, emit evs w)"
    using fetch_comments_indep by blast
  show ?thesis
  proof (cases "truthy (extract_post_id e)")
    case False
    then have "cs = []"
      using fc[of w] by (cases "extract_post_id e") (auto simp: fetch_comments_def)
    with assms False show ?thesis
      by (auto simp: process_post_comments_def fc)
  next
    case True
    show ?thesis
    proof (cases "cs = []")
      case True
      with assms \<open>truthy (extract_post_id e)\<close> show ?thesis
        by (auto simp: process_post_comments_def fc emit_def)
    next
      case False
      with assms True obtain t where
        o: "open_fault env (os_path_join folder [''comments.md'']) = None"
        and wc: "write_comments env 0 (length cs) cs ''# Comments\<newline>\<newline>'' = (t, None)"
        and w': "w' = (emit evs (emit [Sleep] w))
                   \<lparr>files := (files (emit evs (emit [Sleep] w)))
                               (os_path_join folder [''comments.md''] \<mapsto> t)\<rparr>"
        by (auto simp: process_post_comments_def fc Let_def split: option.splits prod.splits)
      from write_comments_done[of env 0 cs "''# Comments\<newline>\<newline>''" t] wc
      have "t = comments_document env cs"
        by (simp add: comments_document_def)
      with False w' write_comments_rendered[OF wc] show ?thesis
        by (simp add: fc emit_def)
    qed
  qed
qed

subsection \<open>The script on the small blog\<close>

lemmas demo_defs = demo_env_def demo_fromisoformat_def demo_strftime_def demo_slugify_def
  demo_markdownify_def demo_feed_def demo_comments_def comments_url_def start_url_def
  BLOG_FEED_URL_def MAX_RESULTS_PER_PAGE_def OUTPUT_DIR_def

lemmas script_defs = process_post_def parse_datetime_def replace_Z_def get_or_def
  strip_def isspace_def generate_folder_name_def os_path_join_def join2_def makedirs_def
  html_to_markdown_def entry_content_def write_file_def process_post_comments_def
  extract_post_id_def isdigit_def fetch_comments_def emit_def
  comment_author_def format_comment_date_def Let_def

lemma demo_dir_chains:
  "dir_chain ''posts'' = [''posts'']"
  "dir_chain ''posts/2024/2024-01-02-03-04-Hello''
     = [''posts'', ''posts/2024'', ''posts/2024/2024-01-02-03-04-Hello'']"
  "dir_chain ''posts/2024/2024-01-05-06-07-Bad''
     = [''posts'', ''posts/2024'', ''posts/2024/2024-01-05-06-07-Bad'']"
  "dir_chain ''posts/2023/2023-12-31-23-59''
     = [''posts'', ''posts/2023'', ''posts/2023/2023-12-31-23-59'']"
  by code_simp+

lemma demo_feed_length: "length (f_entries demo_feed) = 4"
  by (simp add: demo_feed_def)

lemma demo_fetch:
  "fetch_all_posts demo_env w =
     Some (Inr (f_entries demo_feed),
           emit [Print (MsgFetching start_url), Fetch start_url, Print (MsgFound 4 4)] w)"
proof -
  have u: "start_url \<noteq> []" by (simp add: start_url_def BLOG_FEED_URL_def)
  have p: "feedparser_parse demo_env start_url = Inr demo_feed" by (simp add: demo_env_def)
  have nf: "\<not> failed demo_feed" by (simp add: failed_def demo_feed_def)
  have n: "next_url demo_feed = None" by (simp add: next_url_def demo_feed_def)
  show ?thesis
    unfolding fetch_all_posts_def start_url_def[symmetric]
    by (simp add: fetch_loop_step[OF u p nf] n fetch_loop_stop demo_feed_length)
qed

lemma demo_post_a:
  "process_post demo_env post_a OUTPUT_DIR w =
     (Inr (Some ''posts/2024/2024-01-02-03-04-Hello''),
      apply_effect
        ([''posts/2024/2024-01-02-03-04-Hello/index.md'' \<mapsto> ''# Hello\<newline>\<newline>Hi\<newline>'',
          ''posts/2024/2024-01-02-03-04-Hello/comments.md'' \<mapsto>
           ''# Comments\<newline>\<newline>## Ann - 2024-01-03 10:00\<newline>\<newline>First\<newline>\<newline>---\<newline>\<newline>## Anonymous - soon\<newline>\<newline>Second\<newline>\<newline>''],
         {''posts'', ''posts/2024'', ''posts/2024/2024-01-02-03-04-Hello''},
         [Sleep, Fetch (comments_url ''7'')]) w)"
  by (simp add: script_defs demo_defs demo_dir_chains post_a_def comment_ann_def comment_undated_def
        insert_commute)

lemma demo_post_undated:
  "process_post demo_env post_undated OUTPUT_DIR w =
     (Inr None, apply_effect (Map.empty, {}, [Print (MsgSkip ''yesterday'')]) w)"
  by (simp add: script_defs demo_defs post_undated_def)

lemma demo_post_broken:
  "process_post demo_env post_broken OUTPUT_DIR w =
     (Inl (Exn ''parse error''),
      apply_effect (Map.empty, {''posts'', ''posts/2024'', ''posts/2024/2024-01-05-06-07-Bad''}, []) w)"
  by (simp add: script_defs demo_defs demo_dir_chains post_broken_def insert_commute)

lemma demo_post_plain:
  "process_post demo_env post_plain OUTPUT_DIR w =
     (Inr (Some ''posts/2023/2023-12-31-23-59''),
      apply_effect ([''posts/2023/2023-12-31-23-59/index.md'' \<mapsto> ''Bye\<newline>''],
                    {''posts'', ''posts/2023'', ''posts/2023/2023-12-31-23-59''}, []) w)"
  by (simp add: script_defs demo_defs demo_dir_chains post_plain_def insert_commute)

lemma demo_posts:
  "process_posts demo_env (Suc 0) 4 (f_entries demo_feed) w =
     apply_effect
       ([''posts/2024/2024-01-02-03-04-Hello/index.md'' \<mapsto> ''# Hello\<newline>\<newline>Hi\<newline>'',
         ''posts/2024/2024-01-02-03-04-Hello/comments.md'' \<mapsto>
           ''# Comments\<newline>\<newline>## Ann - 2024-01-03 10:00\<newline>\<newline>First\<newline>\<newline>---\<newline>\<newline>## Anonymous - soon\<newline>\<newline>Second\<newline>\<newline>'',
         ''posts/2023/2023-12-31-23-59/index.md'' \<mapsto> ''Bye\<newline>''],
        {''posts'', ''posts/2024'', ''posts/2024/2024-01-02-03-04-Hello'',
         ''posts/2024/2024-01-05-06-07-Bad'', ''posts/2023'', ''posts/2023/2023-12-31-23-59''},
        [Print (MsgProgress 1 4 '' Hello ''), Sleep, Fetch (comments_url ''7''),
         Print (MsgFolder ''posts/2024/2024-01-02-03-04-Hello''),
         Print (MsgProgress 2 4 ''Lost''), Print (MsgSkip ''yesterday''),
         Print (MsgProgress 3 4 ''Bad''), Print (MsgError (Exn ''parse error'')),
         Print (MsgProgress 4 4 ''(untitled)''),
         Print (MsgFolder ''posts/2023/2023-12-31-23-59'')]) w"
proof -
  have t: "e_title post_a = Some '' Hello ''" "e_title post_undated = Some ''Lost''"
    "e_title post_broken = Some ''Bad''" "e_title post_plain = None"
    by (simp_all add: post_a_def post_undated_def post_broken_def post_plain_def)
  show ?thesis
    by (simp add: demo_feed_def demo_post_a demo_post_undated demo_post_broken demo_post_plain
          t get_or_def emit_def)
       auto
qed

lemma demo_main: "main demo_env empty_world = Some (Inr PyNone, demo_final)"
proof -
  have ne: "f_entries demo_feed \<noteq> []" by (simp add: demo_feed_def)
  have mk: "makedirs demo_env OUTPUT_DIR w = (None, apply_effect (Map.empty, {''posts''}, []) w)" for w
    by (simp add: makedirs_def demo_env_def demo_dir_chains OUTPUT_DIR_def)
  show ?thesis
    by (simp add: main_def demo_fetch ne demo_feed_length mk demo_posts emit_def empty_world_def
          demo_final_def)
       auto
qed

subsection \<open>A post that is written\<close>

lemma process_post_comments_elsewhere:
  assumes "process_post_comments env e folder w = (r, w')"
  shows "dirs w' = dirs w
    \<and> (\<forall>p. p \<noteq> os_path_join folder [''comments.md''] \<longrightarrow> files w' p = files w p)"
proof -
  obtain cs evs where fc: "\<And>w. fetch_comments env (extract_post_id e) w = (cs, emit evs w)"
    using fetch_comments_indep by blast
  from assms show ?thesis
    by (auto simp: process_post_comments_def fc emit_def Let_def
             split: if_splits option.splits prod.splits)
qed

lemma post_document_eq:
  "(if t \<noteq> [] then ''# '' @ t @ ''\<newline>\<newline>'' else []) @ strip m @ ''\<newline>''
     = post_document t m"
  by (simp add: post_document_def)

lemma process_post_dated:
  assumes "parse_datetime env (get_or (e_published e) []) = Some dt"
    and "fst (makedirs env (post_folder env e base dt) w) = None"
    and "html_to_markdown env (Some (entry_content e)) = Inr m"
    and "open_fault env (os_path_join (post_folder env e base dt) [''index.md'']) = None"
  shows "process_post env e base w =
           (case process_post_comments env e (post_folder env e base dt)
                   (w\<lparr>dirs := dirs w \<union> set (dir_chain (post_folder env e base dt)),
                      files := (files w)(os_path_join (post_folder env e base dt) [''index.md'']
                                  \<mapsto> post_document (strip (get_or (e_title e) [])) m)\<rparr>) of
              (Some ex, w3) \<Rightarrow> (Inl ex, w3)
            | (None, w3) \<Rightarrow> (Inr (Some (post_folder env e base dt)), w3))"
  using assms(1,3,4) makedirs_made[OF assms(2)]
  unfolding post_folder_def process_post_def Let_def
  by (simp add: write_file_def post_document_eq split del: if_split)

lemma process_post_returned:
  assumes "process_post env e base w = (Inr (Some folder), w')"
  shows "\<exists>dt m. parse_datetime env (get_or (e_published e) []) = Some dt
           \<and> folder = post_folder env e base dt
           \<and> fst (makedirs env folder w) = None
           \<and> html_to_markdown env (Some (entry_content e)) = Inr m
           \<and> process_post_comments env e folder
                (w\<lparr>dirs := dirs w \<union> set (dir_chain folder),
                   files := (files w)(os_path_join folder [''index.md'']
                               \<mapsto> post_document (strip (get_or (e_title e) [])) m)\<rparr>) = (None, w')"
proof (cases "parse_datetime env (get_or (e_published e) [])")
  case None
  with assms show ?thesis
    by (simp add: process_post_def)
next
  case (Some dt)
  obtain mr w1 where mk: "makedirs env (post_folder env e base dt) w = (mr, w1)"
    by (cases "makedirs env (post_folder env e base dt) w")
  show ?thesis
  proof (cases mr)
    case ex: (Some ex)
    with assms Some mk show ?thesis
      by (simp add: process_post_def post_folder_def Let_def)
  next
    case mn: None
    with mk have mf: "fst (makedirs env (post_folder env e base dt) w) = None" by simp
    show ?thesis
    proof (cases "html_to_markdown env (Some (entry_content e))")
      case (Inl ex)
      with assms Some mk mn show ?thesis
        by (simp add: process_post_def post_folder_def Let_def)
    next
      case (Inr m)
      show ?thesis
      proof (cases "open_fault env (os_path_join (post_folder env e base dt) [''index.md''])")
        case op: (Some ex)
        with assms Some mk mn Inr show ?thesis
          by (simp add: process_post_def post_folder_def write_file_def Let_def
                   split del: if_split)
      next
        case None
        from assms process_post_dated[OF Some mf Inr None]
        have "folder = post_folder env e base dt
              \<and> process_post_comments env e (post_folder env e base dt)
                   (w\<lparr>dirs := dirs w \<union> set (dir_chain (post_folder env e base dt)),
                      files := (files w)(os_path_join (post_folder env e base dt) [''index.md'']
                                  \<mapsto> post_document (strip (get_or (e_title e) [])) m)\<rparr>)
                  = (None, w')"
          by (auto split: prod.splits option.splits)
        with Some mf Inr show ?thesis by blast
      qed
    qed
  qed
qed

lemma process_posts_append:
  "process_posts env i n (es @ es') w =
     process_posts env (i + length es) n es' (process_posts env i n es w)"
proof (induction es arbitrary: i w)
  case Nil
  show ?case by simp
next
  case (Cons e es)
  show ?case
    by (simp add: Cons.IH Let_def split: prod.splits sum.splits)
qed

lemma process_posts_progress:
  "filter is_progress (trace (process_posts env i n es w))
     = filter is_progress (trace w) @ progress_lines i n es"
  using process_posts_indep[of env i n es] by auto

subsection \<open>The loop over the posts\<close>

text \<open>
  Claim C2. In the loop of \<^verbatim>\<open>main\<close> over the posts, an exception that escapes
  \<^verbatim>\<open>process_post\<close> is printed as an error line and the loop goes on with the next post.
  The loop over a list of posts followed by more posts is the loop over the first list and
  then the loop over the rest, whatever happened in the first. The progress lines of a run
  are those of all posts, in feed order. Once the posts are fetched and the output root
  exists, \<^verbatim>\<open>main\<close> returns normally.
\<close>

theorem process_posts_continues:
  "(\<forall>ex w1.
      process_post env e OUTPUT_DIR
        (emit [Print (MsgProgress i n (take 50 (get_or (e_title e) ''(untitled)'')))] w)
        = (Inl ex, w1) \<longrightarrow>
      process_posts env i n (e # rest) w
        = process_posts env (i + 1) n rest (emit [Print (MsgError ex)] w1))
   \<and> process_posts env i n (es @ es') w
       = process_posts env (i + length es) n es' (process_posts env i n es w)
   \<and> filter is_progress (trace (process_posts env i n es w))
       = filter is_progress (trace w) @ progress_lines i n es
   \<and> (\<forall>posts w1.
        fetch_all_posts env (emit [Print MsgStart] w) = Some (Inr posts, w1) \<longrightarrow>
        posts \<noteq> [] \<longrightarrow> makedirs_fault env OUTPUT_DIR = None \<longrightarrow>
        map_option fst (main env w) = Some (Inr PyNone))"
proof (intro conjI allI impI)
  fix ex w1
  assume "process_post env e OUTPUT_DIR
            (emit [Print (MsgProgress i n (take 50 (get_or (e_title e) ''(untitled)'')))] w)
          = (Inl ex, w1)"
  then show "process_posts env i n (e # rest) w
        = process_posts env (i + 1) n rest (emit [Print (MsgError ex)] w1)"
    by simp
next
  show "process_posts env i n (es @ es') w
       = process_posts env (i + length es) n es' (process_posts env i n es w)"
    by (rule process_posts_append)
next
  show "filter is_progress (trace (process_posts env i n es w))
       = filter is_progress (trace w) @ progress_lines i n es"
    by (rule process_posts_progress)
next
  fix posts w1
  assume "fetch_all_posts env (emit [Print MsgStart] w) = Some (Inr posts, w1)"
    and "posts \<noteq> []" and "makedirs_fault env OUTPUT_DIR = None"
  then show "map_option fst (main env w) = Some (Inr PyNone)"
    by (simp add: main_def makedirs_def dir_chain_OUTPUT_DIR)
qed

text \<open>
  The theorem on the small blog: the third post raises in the converter, the error is
  printed, and the fourth post is written.
\<close>

theorem process_posts_continues_witness:
  "process_post demo_env post_broken OUTPUT_DIR
      (emit [Print (MsgProgress 3 4 (take 50 (get_or (e_title post_broken) ''(untitled)'')))]
         empty_world)
     = (Inl (Exn ''parse error''),
        apply_effect
          (Map.empty, {''posts'', ''posts/2024'', ''posts/2024/2024-01-05-06-07-Bad''}, [])
          (emit [Print (MsgProgress 3 4 (take 50 (get_or (e_title post_broken) ''(untitled)'')))]
             empty_world))
   \<and> process_posts demo_env 3 4 (post_broken # [post_plain]) empty_world
       = process_posts demo_env (3 + 1) 4 [post_plain]
           (emit [Print (MsgError (Exn ''parse error''))]
             (apply_effect
               (Map.empty, {''posts'', ''posts/2024'', ''posts/2024/2024-01-05-06-07-Bad''}, [])
               (emit [Print (MsgProgress 3 4
                               (take 50 (get_or (e_title post_broken) ''(untitled)'')))]
                  empty_world)))
   \<and> files (process_posts demo_env (3 + 1) 4 [post_plain]
           (emit [Print (MsgError (Exn ''parse error''))]
             (apply_effect
               (Map.empty, {''posts'', ''posts/2024'', ''posts/2024/2024-01-05-06-07-Bad''}, [])
               (emit [Print (MsgProgress 3 4
                               (take 50 (get_or (e_title post_broken) ''(untitled)'')))]
                  empty_world))))
         ''posts/2023/2023-12-31-23-59/index.md'' = Some ''Bye\<newline>''
   \<and> filter is_progress (trace (process_posts demo_env 3 4 [post_broken, post_plain] empty_world))
       = [Print (MsgProgress 3 4 ''Bad''), Print (MsgProgress 4 4 ''(untitled)'')]
   \<and> fetch_all_posts demo_env (emit [Print MsgStart] empty_world)
       = Some (Inr (f_entries demo_feed),
               emit [Print (MsgFetching start_url), Fetch start_url, Print (MsgFound 4 4)]
                 (emit [Print MsgStart] empty_world))
   \<and> f_entries demo_feed \<noteq> [] \<and> makedirs_fault demo_env OUTPUT_DIR = None
   \<and> map_option fst (main demo_env empty_world) = Some (Inr PyNone)"
proof -
  have t: "e_title post_broken = Some ''Bad''" "e_title post_plain = None"
    by (simp_all add: post_broken_def post_plain_def)
  have f: "fetch_all_posts demo_env (emit [Print MsgStart] empty_world)
             = Some (Inr (f_entries demo_feed),
                     emit [Print (MsgFetching start_url), Fetch start_url, Print (MsgFound 4 4)]
                       (emit [Print MsgStart] empty_world))"
    by (rule demo_fetch)
  have ne: "f_entries demo_feed \<noteq> []" by (simp add: demo_feed_def)
  have mk: "makedirs_fault demo_env OUTPUT_DIR = None" by (simp add: demo_env_def)
  show ?thesis
    using process_posts_continues[where env = demo_env and e = post_broken and i = 3 and n = 4
            and w = empty_world and rest = "[post_plain]" and es = "[post_broken, post_plain]"
            and es' = "[]"]
          f ne mk
    by (simp add: demo_post_broken demo_post_plain t get_or_def emit_def empty_world_def)
qed

lemma strip_Nil: "strip [] = []"
  by (simp add: strip_def)

subsection \<open>Posts without a date\<close>

text \<open>
  Claim C3. A post whose \<^verbatim>\<open>published\<close> text does not parse is skipped: \<^verbatim>\<open>process_post\<close>
  returns \<^verbatim>\<open>None\<close> without raising, prints the line that reports the skip, and leaves
  every file and every directory as it was.
\<close>

theorem process_post_unparseable_date:
  assumes "parse_datetime env (get_or (e_published e) []) = None"
  shows "process_post env e output_base w =
           (Inr None, emit [Print (MsgSkip (get_or (e_published e) []))] w)
         \<and> files (snd (process_post env e output_base w)) = files w
         \<and> dirs (snd (process_post env e output_base w)) = dirs w"
  using assms by (simp add: process_post_def emit_def)

theorem process_post_unparseable_date_witness:
  "parse_datetime demo_env (get_or (e_published post_undated) []) = None
   \<and> process_post demo_env post_undated OUTPUT_DIR empty_world =
       (Inr None, emit [Print (MsgSkip ''yesterday'')] empty_world)
   \<and> files (snd (process_post demo_env post_undated OUTPUT_DIR empty_world)) = Map.empty
   \<and> dirs (snd (process_post demo_env post_undated OUTPUT_DIR empty_world)) = {}"
proof -
  have h: "parse_datetime demo_env (get_or (e_published post_undated) []) = None"
    by (simp add: parse_datetime_def replace_Z_def get_or_def post_undated_def demo_defs)
  have p: "get_or (e_published post_undated) [] = ''yesterday''"
    by (simp add: get_or_def post_undated_def)
  show ?thesis
    using process_post_unparseable_date[OF h, of OUTPUT_DIR empty_world] h
    by (simp add: p empty_world_def emit_def)
qed

subsection \<open>Folder names\<close>

text \<open>
  Claim C4. The folder name starts with the timestamp rendered with the format
  \<^verbatim>\<open>%Y-%m-%d-%H-%M\<close>. For a title that is not empty after trimming it is this prefix, a
  hyphen, and the slug of the title requested with \<^verbatim>\<open>max_length=50\<close> (so, with a slug
  library that respects the cap, at most 51 characters longer than the prefix); for a title
  that is empty or only whitespace it is the prefix alone. The year directory of a processed
  post is the same timestamp rendered with \<^verbatim>\<open>%Y\<close>.
\<close>

theorem generate_folder_name_shape:
  "(strip title \<noteq> [] \<longrightarrow>
      generate_folder_name env dt title =
        strftime env dt ''%Y-%m-%d-%H-%M'' @ ''-'' @ slugify env title 50)
   \<and> (strip title = [] \<longrightarrow>
      generate_folder_name env dt title = strftime env dt ''%Y-%m-%d-%H-%M'')
   \<and> take (length (strftime env dt ''%Y-%m-%d-%H-%M'')) (generate_folder_name env dt title)
       = strftime env dt ''%Y-%m-%d-%H-%M''
   \<and> ((\<forall>s n. length (slugify env s n) \<le> n) \<longrightarrow>
        length (generate_folder_name env dt title)
          \<le> length (strftime env dt ''%Y-%m-%d-%H-%M'') + 51)
   \<and> (parse_datetime env (get_or (e_published e) []) = Some dt \<longrightarrow>
        fst (process_post env e output_base w) = Inr (Some folder_path) \<longrightarrow>
        folder_path =
          os_path_join output_base
            [strftime env dt ''%Y'',
             generate_folder_name env dt (strip (get_or (e_title e) []))])"
proof (intro conjI impI)
  assume "strip title \<noteq> []"
  then have "title \<noteq> []" by (auto simp: strip_Nil)
  with \<open>strip title \<noteq> []\<close>
  show "generate_folder_name env dt title =
        strftime env dt ''%Y-%m-%d-%H-%M'' @ ''-'' @ slugify env title 50"
    by (simp add: generate_folder_name_def)
next
  assume "strip title = []"
  then show "generate_folder_name env dt title = strftime env dt ''%Y-%m-%d-%H-%M''"
    by (simp add: generate_folder_name_def)
next
  show "take (length (strftime env dt ''%Y-%m-%d-%H-%M'')) (generate_folder_name env dt title)
       = strftime env dt ''%Y-%m-%d-%H-%M''"
    by (simp add: generate_folder_name_def Let_def)
next
  assume "\<forall>s n. length (slugify env s n) \<le> n"
  then have "length (slugify env title 50) \<le> 50" by blast
  then show "length (generate_folder_name env dt title)
          \<le> length (strftime env dt ''%Y-%m-%d-%H-%M'') + 51"
    by (simp add: generate_folder_name_def Let_def)
next
  assume pd: "parse_datetime env (get_or (e_published e) []) = Some dt"
    and "fst (process_post env e output_base w) = Inr (Some folder_path)"
  then have "process_post env e output_base w
               = (Inr (Some folder_path), snd (process_post env e output_base w))"
    by (cases "process_post env e output_base w") simp
  from process_post_returned[OF this] pd
  show "folder_path =
          os_path_join output_base
            [strftime env dt ''%Y'',
             generate_folder_name env dt (strip (get_or (e_title e) []))]"
    by (auto simp: post_folder_def)
qed

theorem generate_folder_name_shape_witness:
  "strip ''Hello'' \<noteq> []
   \<and> generate_folder_name demo_env ''2024-01-02T03:04'' ''Hello'' = ''2024-01-02-03-04-Hello''
   \<and> strip [CHR '' '', CHR 0x09] = []
   \<and> generate_folder_name demo_env ''2024-01-02T03:04'' [CHR '' '', CHR 0x09] = ''2024-01-02-03-04''
   \<and> (\<forall>s n. length (slugify demo_env s n) \<le> n)
   \<and> length (generate_folder_name demo_env ''2024-01-02T03:04'' ''Hello'') \<le> 16 + 51
   \<and> parse_datetime demo_env (get_or (e_published post_a) []) = Some ''2024-01-02T03:04''
   \<and> fst (process_post demo_env post_a OUTPUT_DIR empty_world)
       = Inr (Some ''posts/2024/2024-01-02-03-04-Hello'')
   \<and> ''posts/2024/2024-01-02-03-04-Hello''
       = os_path_join OUTPUT_DIR [''2024'', ''2024-01-02-03-04-Hello'']"
proof -
  have s1: "strip ''Hello'' \<noteq> []" and s1': "strip ''Hello'' = ''Hello''"
    and s2: "strip [CHR '' '', CHR 0x09] = []"
    by (simp_all add: strip_def isspace_def)
  have cap: "\<forall>s n. length (slugify demo_env s n) \<le> n"
    by (simp add: demo_env_def demo_slugify_def)
  have pd: "parse_datetime demo_env (get_or (e_published post_a) []) = Some ''2024-01-02T03:04''"
    by (simp add: parse_datetime_def replace_Z_def get_or_def post_a_def demo_defs)
  have t: "strip (get_or (e_title post_a) []) = ''Hello''"
    by (simp add: get_or_def post_a_def strip_def isspace_def)
  have r: "fst (process_post demo_env post_a OUTPUT_DIR empty_world)
             = Inr (Some ''posts/2024/2024-01-02-03-04-Hello'')"
    by (simp add: demo_post_a)
  have f: "strftime demo_env ''2024-01-02T03:04'' ''%Y-%m-%d-%H-%M'' = ''2024-01-02-03-04''"
    "strftime demo_env ''2024-01-02T03:04'' ''%Y'' = ''2024''"
    "slugify demo_env ''Hello'' 50 = ''Hello''"
    by (simp_all add: demo_defs isspace_def)
  show ?thesis
    using generate_folder_name_shape[where env = demo_env and dt = "''2024-01-02T03:04''"
            and title = "''Hello''" and e = post_a and output_base = OUTPUT_DIR
            and w = empty_world and folder_path = "''posts/2024/2024-01-02-03-04-Hello''"]
          generate_folder_name_shape[where env = demo_env and dt = "''2024-01-02T03:04''"
            and title = "[CHR '' '', CHR 0x09]" and e = post_a and output_base = OUTPUT_DIR
            and w = empty_world and folder_path = "''posts/2024/2024-01-02-03-04-Hello''"]
          s1 s2 cap pd r
    by (simp add: f t)
qed

subsection \<open>Comment fetcher\<close>

text \<open>
  Claim C5, as the code has it. \<^verbatim>\<open>fetch_comments\<close> always returns a list and never raises.
  Without a post identifier it returns the empty list and leaves the world as it is: no
  request is made. With one, it requests the comment feed of the post; it returns the empty
  list when the request raises (the exception is printed) and when the parser flags the feed
  and the feed has no entries; in every other case, also when the parser flags a feed that
  still has entries, it returns the entries of the feed.
\<close>

theorem fetch_comments_total:
  "(\<not> truthy post_id \<longrightarrow> fetch_comments env post_id w = ([], w))
   \<and> (\<forall>pid ex. post_id = Some pid \<longrightarrow> pid \<noteq> [] \<longrightarrow>
        feedparser_parse env (comments_url pid) = Inl ex \<longrightarrow>
        fetch_comments env post_id w =
          ([], emit [Fetch (comments_url pid), Print (MsgCommentError pid ex)] w))
   \<and> (\<forall>pid fd. post_id = Some pid \<longrightarrow> pid \<noteq> [] \<longrightarrow>
        feedparser_parse env (comments_url pid) = Inr fd \<longrightarrow>
        fetch_comments env post_id w =
          (if f_bozo fd \<noteq> None \<and> f_entries fd = [] then [] else f_entries fd,
           emit [Fetch (comments_url pid)] w))"
  by (cases post_id) (auto simp: fetch_comments_def comments_url_def)

theorem fetch_comments_total_witness:
  "\<not> truthy None \<and> fetch_comments demo_env None empty_world = ([], empty_world)
   \<and> feedparser_parse demo_env (comments_url ''9'') = Inl (Exn ''unknown host'')
   \<and> fetch_comments demo_env (Some ''9'') empty_world =
       ([], emit [Fetch (comments_url ''9''),
                  Print (MsgCommentError ''9'' (Exn ''unknown host''))] empty_world)
   \<and> feedparser_parse silent_env (comments_url ''7'') = Inr silent_feed
   \<and> fetch_comments silent_env (Some ''7'') empty_world =
       ([], emit [Fetch (comments_url ''7'')] empty_world)"
proof -
  have a: "feedparser_parse demo_env (comments_url ''9'') = Inl (Exn ''unknown host'')"
    by (simp add: demo_defs)
  have b: "feedparser_parse silent_env (comments_url ''7'') = Inr silent_feed"
    by (simp add: silent_env_def)
  have c: "f_bozo silent_feed \<noteq> None \<and> f_entries silent_feed = []"
    by (simp add: silent_feed_def)
  show ?thesis
    using fetch_comments_total[of None demo_env empty_world]
          fetch_comments_total[of "Some ''9''" demo_env empty_world]
          fetch_comments_total[of "Some ''7''" silent_env empty_world]
          a b c
    by simp
qed

text \<open>
  The claim as first stated does not hold: the comment feed of post 7 of the small blog is
  flagged by the parser, and \<^verbatim>\<open>fetch_comments\<close> returns its two entries, not the empty list.
\<close>

theorem fetch_comments_flagged_counterexample:
  "feedparser_parse demo_env (comments_url ''7'') = Inr demo_comments
   \<and> f_bozo demo_comments = Some (Exn ''encoding overridden'')
   \<and> fst (fetch_comments demo_env (Some ''7'') empty_world) = [comment_ann, comment_undated]
   \<and> fst (fetch_comments demo_env (Some ''7'') empty_world) \<noteq> []"
  by (simp add: fetch_comments_def demo_defs)

subsection \<open>Comment dates\<close>

text \<open>
  Claim C10. A comment whose \<^verbatim>\<open>published\<close> text does not parse is not skipped and does not
  make the loop fail: when the converter returns for its content, the loop writes its
  section, whose subheading carries the text as it came, and goes on with the next comment.
  A date that parses is written in the format \<^verbatim>\<open>%Y-%m-%d %H:%M\<close>.
\<close>

theorem format_comment_date_raw:
  assumes "parse_datetime env (get_or (e_published c) []) = None"
    and "html_to_markdown env (Some (entry_content c)) = Inr m"
  shows "format_comment_date env (get_or (e_published c) []) = get_or (e_published c) []
         \<and> write_comments env i n (c # rest) f =
             write_comments env (i + 1) n rest
               (f @ ''## '' @ comment_author c @ '' - '' @ get_or (e_published c) []
                  @ ''\<newline>\<newline>'' @ strip m @ ''\<newline>\<newline>''
                  @ (if int i < int n - 1 then ''---\<newline>\<newline>'' else []))
         \<and> (\<forall>d dt. parse_datetime env d = Some dt \<longrightarrow>
               format_comment_date env d = strftime env dt ''%Y-%m-%d %H:%M'')"
  using assms by (simp add: format_comment_date_def)

theorem format_comment_date_raw_witness:
  "parse_datetime demo_env (get_or (e_published comment_undated) []) = None
   \<and> html_to_markdown demo_env (Some (entry_content comment_undated)) = Inr ''Second''
   \<and> format_comment_date demo_env ''soon'' = ''soon''
   \<and> write_comments demo_env 1 2 [comment_undated] ''# Comments\<newline>\<newline>'' =
       (''# Comments\<newline>\<newline>## Anonymous - soon\<newline>\<newline>Second\<newline>\<newline>'', None)
   \<and> parse_datetime demo_env ''2024-01-03T10:00:00Z'' = Some ''2024-01-03T10:00''
   \<and> format_comment_date demo_env ''2024-01-03T10:00:00Z'' = ''2024-01-03 10:00''"
proof -
  have p: "get_or (e_published comment_undated) [] = ''soon''"
    and a: "comment_author comment_undated = ''Anonymous''"
    by (simp_all add: get_or_def comment_undated_def comment_author_def)
  have h1: "parse_datetime demo_env (get_or (e_published comment_undated) []) = None"
    by (simp add: p parse_datetime_def replace_Z_def demo_defs)
  have h2: "html_to_markdown demo_env (Some (entry_content comment_undated)) = Inr ''Second''"
    by (simp add: html_to_markdown_def entry_content_def get_or_def comment_undated_def demo_defs)
  have h3: "parse_datetime demo_env ''2024-01-03T10:00:00Z'' = Some ''2024-01-03T10:00''"
    by (simp add: parse_datetime_def replace_Z_def demo_defs)
  have s: "strip ''Second'' = ''Second''"
    by (simp add: strip_def isspace_def)
  have f: "strftime demo_env ''2024-01-03T10:00'' ''%Y-%m-%d %H:%M'' = ''2024-01-03 10:00''"
    by (simp add: demo_defs)
  show ?thesis
    using format_comment_date_raw[OF h1 h2, of 1 2 "[]" "''# Comments\<newline>\<newline>''"] h1 h2 h3
    by (simp add: p a s f)
qed

subsection \<open>Comments document\<close>

text \<open>
  Claim C6. Let \<^verbatim>\<open>process_post\<close> have returned the folder of a post. If the comment fetcher
  returned at least one comment for the post, \<^verbatim>\<open>comments.md\<close> in that folder holds the
  comments document: the heading \<^verbatim>\<open># Comments\<close>, then one section per comment in fetch
  order, each a subheading \<^verbatim>\<open>## <author> - <date>\<close> (the author is \<^verbatim>\<open>Anonymous\<close> when the
  comment names none) and the trimmed rendering of the comment, with a line \<^verbatim>\<open>---\<close> between
  two sections and none after the last. The rendering of a comment is what the converter
  \<open>markdownify env\<close> returned for its content, and the empty string for empty content; the
  converter returned for every comment with content. If the fetcher returned no comment,
  \<^verbatim>\<open>comments.md\<close> is not touched.
\<close>

theorem comments_document_written:
  assumes "process_post env e output_base w = (Inr (Some folder), w')"
  shows "(fst (fetch_comments env (extract_post_id e) w) \<noteq> [] \<longrightarrow>
            files w' (os_path_join folder [''comments.md''])
              = Some (comments_document env (fst (fetch_comments env (extract_post_id e) w))))
         \<and> (fst (fetch_comments env (extract_post_id e) w) = [] \<longrightarrow>
            files w' (os_path_join folder [''comments.md''])
              = files w (os_path_join folder [''comments.md'']))
         \<and> (\<forall>c \<in> set (fst (fetch_comments env (extract_post_id e) w)).
              html_to_markdown env (Some (entry_content c))
                = Inr (rendered env (entry_content c)))
         \<and> (\<forall>c \<in> set (fst (fetch_comments env (extract_post_id e) w)).
              entry_content c \<noteq> [] \<longrightarrow>
              markdownify env (entry_content c) = Inr (rendered env (entry_content c)))
         \<and> (\<forall>c \<in> set (fst (fetch_comments env (extract_post_id e) w)).
              entry_content c = [] \<longrightarrow> rendered env (entry_content c) = [])"
proof -
  from process_post_returned[OF assms] obtain m where
    c: "process_post_comments env e folder
          (w\<lparr>dirs := dirs w \<union> set (dir_chain folder),
             files := (files w)(os_path_join folder [''index.md'']
                         \<mapsto> post_document (strip (get_or (e_title e) [])) m)\<rparr>) = (None, w')"
    by blast
  note f = process_post_comments_files[OF c, of w]
  from f have r: "\<forall>c \<in> set (fst (fetch_comments env (extract_post_id e) w)).
              html_to_markdown env (Some (entry_content c))
                = Inr (rendered env (entry_content c))"
    by blast
  then have "\<forall>c \<in> set (fst (fetch_comments env (extract_post_id e) w)).
              entry_content c \<noteq> [] \<longrightarrow>
              markdownify env (entry_content c) = Inr (rendered env (entry_content c))"
    by (auto simp: html_to_markdown_def)
  moreover have "\<forall>c \<in> set (fst (fetch_comments env (extract_post_id e) w)).
              entry_content c = [] \<longrightarrow> rendered env (entry_content c) = []"
    by (simp add: rendered_def)
  moreover from f index_neq_comments[of folder]
  have "(fst (fetch_comments env (extract_post_id e) w) \<noteq> [] \<longrightarrow>
            files w' (os_path_join folder [''comments.md''])
              = Some (comments_document env (fst (fetch_comments env (extract_post_id e) w))))
         \<and> (fst (fetch_comments env (extract_post_id e) w) = [] \<longrightarrow>
            files w' (os_path_join folder [''comments.md''])
              = files w (os_path_join folder [''comments.md'']))"
    by auto
  ultimately show ?thesis
    using r by blast
qed

text \<open>
  The theorem on the small blog: post 7 has two comments, and its comments document has two
  sections with one separator between them, the first with the text that the converter made
  of the marked-up content; the last post has no identifier, hence no comments and no
  comments document.
\<close>

theorem comments_document_written_witness:
  "process_post demo_env post_a OUTPUT_DIR empty_world =
     (Inr (Some ''posts/2024/2024-01-02-03-04-Hello''),
      snd (process_post demo_env post_a OUTPUT_DIR empty_world))
   \<and> fst (fetch_comments demo_env (extract_post_id post_a) empty_world)
       = [comment_ann, comment_undated]
   \<and> files (snd (process_post demo_env post_a OUTPUT_DIR empty_world))
        (os_path_join ''posts/2024/2024-01-02-03-04-Hello'' [''comments.md''])
       = Some (comments_document demo_env [comment_ann, comment_undated])
   \<and> comments_document demo_env [comment_ann, comment_undated]
       = ''# Comments\<newline>\<newline>## Ann - 2024-01-03 10:00\<newline>\<newline>First\<newline>\<newline>---\<newline>\<newline>## Anonymous - soon\<newline>\<newline>Second\<newline>\<newline>''
   \<and> process_post demo_env post_plain OUTPUT_DIR empty_world =
       (Inr (Some ''posts/2023/2023-12-31-23-59''),
        snd (process_post demo_env post_plain OUTPUT_DIR empty_world))
   \<and> fst (fetch_comments demo_env (extract_post_id post_plain) empty_world) = []
   \<and> files (snd (process_post demo_env post_plain OUTPUT_DIR empty_world))
        (os_path_join ''posts/2023/2023-12-31-23-59'' [''comments.md'']) = None
   \<and> html_to_markdown demo_env (Some (entry_content comment_ann))
       = Inr (rendered demo_env (entry_content comment_ann))
   \<and> html_to_markdown demo_env (Some (entry_content comment_undated))
       = Inr (rendered demo_env (entry_content comment_undated))
   \<and> entry_content comment_ann = ''<b>First</b>''
   \<and> markdownify demo_env ''<b>First</b>'' = Inr ''First''
   \<and> rendered demo_env (entry_content comment_ann) = ''First''
   \<and> entry_content comment_undated = ''Second''
   \<and> markdownify demo_env ''Second'' = Inr ''Second''
   \<and> rendered demo_env (entry_content comment_undated) = ''Second''"
proof -
  have a: "process_post demo_env post_a OUTPUT_DIR empty_world =
     (Inr (Some ''posts/2024/2024-01-02-03-04-Hello''),
      snd (process_post demo_env post_a OUTPUT_DIR empty_world))"
    by (simp add: demo_post_a)
  have b: "process_post demo_env post_plain OUTPUT_DIR empty_world =
       (Inr (Some ''posts/2023/2023-12-31-23-59''),
        snd (process_post demo_env post_plain OUTPUT_DIR empty_world))"
    by (simp add: demo_post_plain)
  have ca: "fst (fetch_comments demo_env (extract_post_id post_a) empty_world)
              = [comment_ann, comment_undated]"
    by (simp add: fetch_comments_def extract_post_id_def get_or_def post_a_def isdigit_def
          demo_defs)
  have cb: "fst (fetch_comments demo_env (extract_post_id post_plain) empty_world) = []"
    by (simp add: fetch_comments_def extract_post_id_def get_or_def post_plain_def)
  have ec: "entry_content comment_ann = ''<b>First</b>''"
    "entry_content comment_undated = ''Second''"
    by (simp_all add: entry_content_def get_or_def comment_ann_def comment_undated_def)
  have mc: "markdownify demo_env ''<b>First</b>'' = Inr ''First''"
    "markdownify demo_env ''Second'' = Inr ''Second''"
    by (simp_all add: demo_defs)
  have r: "rendered demo_env ''<b>First</b>'' = ''First''"
    "rendered demo_env ''Second'' = ''Second''"
    by (simp_all add: rendered_def mc)
  have d: "comments_document demo_env [comment_ann, comment_undated]
       = ''# Comments\<newline>\<newline>## Ann - 2024-01-03 10:00\<newline>\<newline>First\<newline>\<newline>---\<newline>\<newline>## Anonymous - soon\<newline>\<newline>Second\<newline>\<newline>''"
  proof -
    have au: "e_author_detail comment_ann = Some (Some ''Ann'')"
      "e_author_detail comment_undated = None"
      by (simp_all add: comment_ann_def comment_undated_def)
    have da: "format_comment_date demo_env (get_or (e_published comment_ann) [])
                = ''2024-01-03 10:00''"
      "format_comment_date demo_env (get_or (e_published comment_undated) []) = ''soon''"
      by (simp_all add: format_comment_date_def parse_datetime_def replace_Z_def get_or_def
            comment_ann_def comment_undated_def demo_defs)
    have st: "strip ''First'' = ''First''" "strip ''Second'' = ''Second''"
      by (simp_all add: strip_def isspace_def)
    show ?thesis
      by (simp add: comments_document_def comment_section_def ec r au da st)
  qed
  show ?thesis
    using comments_document_written[OF a] comments_document_written[OF b] a b ca cb d
    by (simp add: empty_world_def ec mc r)
qed

subsection \<open>Content and post document\<close>

text \<open>
  Claim C7. The content of an entry is the \<^verbatim>\<open>value\<close> of its first content block when it has
  a content block, whether or not it has a summary (a block without \<^verbatim>\<open>value\<close> counts as
  empty); without a content block it is the summary, and the empty string when that is
  missing too. \<^verbatim>\<open>html_to_markdown\<close> returns the empty string for \<^verbatim>\<open>None\<close> and for the empty
  string, and for every other input what the converter \<open>markdownify env\<close> returns or raises.
  For a post whose date parses, once the folder is made and \<^verbatim>\<open>index.md\<close> is opened,
  \<^verbatim>\<open>index.md\<close> holds the post document: the heading \<^verbatim>\<open># <title>\<close> and a blank line when the
  trimmed title is not empty, then the trimmed body, then one newline. The body is what the
  converter returned for the content of the entry, and empty for empty content. The file
  holds this whatever happens to the comments afterwards.
\<close>

theorem content_and_post_document:
  "(\<forall>v blocks. e_content e = Some (Some v # blocks) \<longrightarrow> entry_content e = v)
   \<and> (\<forall>blocks. e_content e = Some (None # blocks) \<longrightarrow> entry_content e = [])
   \<and> (e_content e = None \<or> e_content e = Some [] \<longrightarrow>
        entry_content e = get_or (e_summary e) [])
   \<and> html_to_markdown env None = Inr []
   \<and> html_to_markdown env (Some []) = Inr []
   \<and> (\<forall>h. h \<noteq> [] \<longrightarrow> html_to_markdown env (Some h) = markdownify env h)
   \<and> (\<forall>dt m.
        parse_datetime env (get_or (e_published e) []) = Some dt \<longrightarrow>
        fst (makedirs env (post_folder env e output_base dt) w) = None \<longrightarrow>
        entry_content e \<noteq> [] \<longrightarrow>
        markdownify env (entry_content e) = Inr m \<longrightarrow>
        open_fault env (os_path_join (post_folder env e output_base dt) [''index.md'']) = None \<longrightarrow>
        files (snd (process_post env e output_base w))
              (os_path_join (post_folder env e output_base dt) [''index.md''])
          = Some (post_document (strip (get_or (e_title e) [])) m))
   \<and> (\<forall>dt.
        parse_datetime env (get_or (e_published e) []) = Some dt \<longrightarrow>
        fst (makedirs env (post_folder env e output_base dt) w) = None \<longrightarrow>
        entry_content e = [] \<longrightarrow>
        open_fault env (os_path_join (post_folder env e output_base dt) [''index.md'']) = None \<longrightarrow>
        files (snd (process_post env e output_base w))
              (os_path_join (post_folder env e output_base dt) [''index.md''])
          = Some (post_document (strip (get_or (e_title e) [])) []))"
proof -
  have doc: "files (snd (process_post env e output_base w))
              (os_path_join (post_folder env e output_base dt) [''index.md''])
          = Some (post_document (strip (get_or (e_title e) [])) m)"
    if h: "parse_datetime env (get_or (e_published e) []) = Some dt"
      "fst (makedirs env (post_folder env e output_base dt) w) = None"
      "html_to_markdown env (Some (entry_content e)) = Inr m"
      "open_fault env (os_path_join (post_folder env e output_base dt) [''index.md'']) = None"
    for dt m
  proof -
    let ?folder = "post_folder env e output_base dt"
    let ?w2 = "w\<lparr>dirs := dirs w \<union> set (dir_chain ?folder),
                 files := (files w)(os_path_join ?folder [''index.md'']
                             \<mapsto> post_document (strip (get_or (e_title e) [])) m)\<rparr>"
    obtain r w3 where c: "process_post_comments env e ?folder ?w2 = (r, w3)"
      by (cases "process_post_comments env e ?folder ?w2")
    from process_post_comments_elsewhere[OF c] index_neq_comments[of ?folder]
    have "files w3 (os_path_join ?folder [''index.md''])
            = Some (post_document (strip (get_or (e_title e) [])) m)"
      by simp
    moreover have "snd (process_post env e output_base w) = w3"
      by (simp add: process_post_dated[OF h] c split: option.splits)
    ultimately show ?thesis by simp
  qed
  show ?thesis
  proof (intro conjI allI impI)
    fix v blocks
    assume "e_content e = Some (Some v # blocks)"
    then show "entry_content e = v"
      by (simp add: entry_content_def get_or_def)
  next
    fix blocks
    assume "e_content e = Some (None # blocks)"
    then show "entry_content e = []"
      by (simp add: entry_content_def get_or_def)
  next
    assume "e_content e = None \<or> e_content e = Some []"
    then show "entry_content e = get_or (e_summary e) []"
      by (auto simp: entry_content_def)
  next
    show "html_to_markdown env None = Inr []"
      by (simp add: html_to_markdown_def)
  next
    show "html_to_markdown env (Some []) = Inr []"
      by (simp add: html_to_markdown_def)
  next
    fix h :: string
    assume "h \<noteq> []"
    then show "html_to_markdown env (Some h) = markdownify env h"
      by (simp add: html_to_markdown_def)
  next
    fix dt m
    assume h: "parse_datetime env (get_or (e_published e) []) = Some dt"
      "fst (makedirs env (post_folder env e output_base dt) w) = None"
      "entry_content e \<noteq> []"
      "markdownify env (entry_content e) = Inr m"
      "open_fault env (os_path_join (post_folder env e output_base dt) [''index.md'']) = None"
    from h(3,4) have "html_to_markdown env (Some (entry_content e)) = Inr m"
      by (simp add: html_to_markdown_def)
    from doc[OF h(1,2) this h(5)]
    show "files (snd (process_post env e output_base w))
              (os_path_join (post_folder env e output_base dt) [''index.md''])
          = Some (post_document (strip (get_or (e_title e) [])) m)" .
  next
    fix dt
    assume h: "parse_datetime env (get_or (e_published e) []) = Some dt"
      "fst (makedirs env (post_folder env e output_base dt) w) = None"
      "entry_content e = []"
      "open_fault env (os_path_join (post_folder env e output_base dt) [''index.md'']) = None"
    from h(3) have "html_to_markdown env (Some (entry_content e)) = Inr []"
      by (simp add: html_to_markdown_def)
    from doc[OF h(1,2) this h(4)]
    show "files (snd (process_post env e output_base w))
              (os_path_join (post_folder env e output_base dt) [''index.md''])
          = Some (post_document (strip (get_or (e_title e) [])) [])" .
  qed
qed

text \<open>
  The theorem on the small blog: the first post has a marked-up content block and a
  summary, and its document has a heading and the text the converter made of the content;
  the last post has only a summary and no title. An entry whose content block has no value
  has empty content, summary or not, and its document has an empty body.
\<close>

theorem content_and_post_document_witness:
  "e_content post_a = Some (Some ''<p>Hi</p>'' # []) \<and> e_summary post_a = Some ''short''
   \<and> entry_content post_a = ''<p>Hi</p>''
   \<and> e_content post_plain = None \<and> entry_content post_plain = ''Bye''
   \<and> e_content post_valueless = Some (None # []) \<and> e_summary post_valueless = Some ''unused''
   \<and> entry_content post_valueless = []
   \<and> html_to_markdown demo_env (Some ''<p>Hi</p>'') = markdownify demo_env ''<p>Hi</p>''
   \<and> parse_datetime demo_env (get_or (e_published post_a) []) = Some ''2024-01-02T03:04''
   \<and> fst (makedirs demo_env (post_folder demo_env post_a OUTPUT_DIR ''2024-01-02T03:04'')
             empty_world) = None
   \<and> markdownify demo_env (entry_content post_a) = Inr ''Hi''
   \<and> open_fault demo_env
        (os_path_join (post_folder demo_env post_a OUTPUT_DIR ''2024-01-02T03:04'') [''index.md''])
       = None
   \<and> files (snd (process_post demo_env post_a OUTPUT_DIR empty_world))
        ''posts/2024/2024-01-02-03-04-Hello/index.md'' = Some ''# Hello\<newline>\<newline>Hi\<newline>''
   \<and> parse_datetime demo_env (get_or (e_published post_plain) []) = Some ''2023-12-31T23:59''
   \<and> markdownify demo_env (entry_content post_plain) = Inr ''Bye''
   \<and> files (snd (process_post demo_env post_plain OUTPUT_DIR empty_world))
        ''posts/2023/2023-12-31-23-59/index.md'' = Some ''Bye\<newline>''
   \<and> parse_datetime demo_env (get_or (e_published post_valueless) []) = Some ''2024-02-03T04:05''
   \<and> fst (makedirs demo_env (post_folder demo_env post_valueless OUTPUT_DIR ''2024-02-03T04:05'')
             empty_world) = None
   \<and> files (snd (process_post demo_env post_valueless OUTPUT_DIR empty_world))
        ''posts/2024/2024-02-03-04-05-Empty/index.md'' = Some ''# Empty\<newline>\<newline>\<newline>''"
proof -
  have c: "e_content post_a = Some (Some ''<p>Hi</p>'' # [])" "e_summary post_a = Some ''short''"
    "e_content post_plain = None" "get_or (e_summary post_plain) [] = ''Bye''"
    "e_content post_valueless = Some (None # [])" "e_summary post_valueless = Some ''unused''"
    by (simp_all add: post_a_def post_plain_def post_valueless_def get_or_def)
  have pa: "parse_datetime demo_env (get_or (e_published post_a) []) = Some ''2024-01-02T03:04''"
    and pp: "parse_datetime demo_env (get_or (e_published post_plain) []) = Some ''2023-12-31T23:59''"
    and pv: "parse_datetime demo_env (get_or (e_published post_valueless) [])
               = Some ''2024-02-03T04:05''"
    by (simp_all add: parse_datetime_def replace_Z_def get_or_def post_a_def post_plain_def
          post_valueless_def demo_defs)
  have fa: "post_folder demo_env post_a OUTPUT_DIR ''2024-01-02T03:04''
              = ''posts/2024/2024-01-02-03-04-Hello''"
    and fp: "post_folder demo_env post_plain OUTPUT_DIR ''2023-12-31T23:59''
              = ''posts/2023/2023-12-31-23-59''"
    and fv: "post_folder demo_env post_valueless OUTPUT_DIR ''2024-02-03T04:05''
              = ''posts/2024/2024-02-03-04-05-Empty''"
    by (simp_all add: post_folder_def generate_folder_name_def os_path_join_def join2_def
          get_or_def strip_def isspace_def post_a_def post_plain_def post_valueless_def demo_defs)
  have j: "os_path_join ''posts/2024/2024-01-02-03-04-Hello'' [''index.md'']
             = ''posts/2024/2024-01-02-03-04-Hello/index.md''"
    "os_path_join ''posts/2023/2023-12-31-23-59'' [''index.md'']
             = ''posts/2023/2023-12-31-23-59/index.md''"
    "os_path_join ''posts/2024/2024-02-03-04-05-Empty'' [''index.md'']
             = ''posts/2024/2024-02-03-04-05-Empty/index.md''"
    by (simp_all add: os_path_join_def join2_def)
  have nf: "makedirs_fault demo_env d = None" for d
    by (simp add: demo_env_def)
  have mk: "fst (mkdirs demo_env ds w) = None" for ds w
    by (induction ds arbitrary: w) (simp_all add: nf)
  have f: "fst (makedirs demo_env p w) = None" "open_fault demo_env p = None" for p w
    by (simp_all add: makedirs_def mk) (simp add: demo_env_def)
  have ma: "markdownify demo_env ''<p>Hi</p>'' = Inr ''Hi''"
    and mp: "markdownify demo_env ''Bye'' = Inr ''Bye''"
    by (simp_all add: demo_defs)
  have ha: "html_to_markdown demo_env (Some ''<p>Hi</p>'') = markdownify demo_env ''<p>Hi</p>''"
    by (simp add: html_to_markdown_def)
  have t: "strip (get_or (e_title post_a) []) = ''Hello''"
    "strip (get_or (e_title post_plain) []) = []"
    "strip (get_or (e_title post_valueless) []) = ''Empty''"
    by (simp_all add: get_or_def post_a_def post_plain_def post_valueless_def strip_def isspace_def)
  have d: "post_document ''Hello'' ''Hi'' = ''# Hello\<newline>\<newline>Hi\<newline>''"
    "post_document [] ''Bye'' = ''Bye\<newline>''"
    "post_document ''Empty'' [] = ''# Empty\<newline>\<newline>\<newline>''"
    by (simp_all add: post_document_def strip_def isspace_def)
  show ?thesis
    using content_and_post_document[where e = post_a and env = demo_env
            and output_base = OUTPUT_DIR and w = empty_world]
          content_and_post_document[where e = post_plain and env = demo_env
            and output_base = OUTPUT_DIR and w = empty_world]
          content_and_post_document[where e = post_valueless and env = demo_env
            and output_base = OUTPUT_DIR and w = empty_world]
    by (simp add: c pa pp pv fa fp fv j f ma mp ha t d)
qed

subsection \<open>What a run returns\<close>

text \<open>
  Claim C8, as the code has it. \<^verbatim>\<open>main\<close> returns \<^verbatim>\<open>None\<close> whenever it returns: it keeps no
  count of the posts it wrote. When the pagination walker yields no entry, \<^verbatim>\<open>main\<close> prints
  the total and the line that says so, and returns without an error and without having
  changed a file or a directory.
\<close>

theorem main_returns_none:
  "(\<forall>v w'. main env w = Some (Inr v, w') \<longrightarrow> v = PyNone)
   \<and> (\<forall>w1. fetch_all_posts env (emit [Print MsgStart] w) = Some (Inr [], w1) \<longrightarrow>
        main env w = Some (Inr PyNone, emit [Print (MsgTotal 0), Print MsgNoPosts] w1)
        \<and> files (emit [Print (MsgTotal 0), Print MsgNoPosts] w1) = files w
        \<and> dirs (emit [Print (MsgTotal 0), Print MsgNoPosts] w1) = dirs w)"
proof (intro conjI allI impI)
  fix v w'
  assume "main env w = Some (Inr v, w')"
  then show "v = PyNone"
    by (auto simp: main_def split: option.splits sum.splits if_splits prod.splits)
next
  fix w1
  assume f: "fetch_all_posts env (emit [Print MsgStart] w) = Some (Inr [], w1)"
  then show "main env w = Some (Inr PyNone, emit [Print (MsgTotal 0), Print MsgNoPosts] w1)"
    by (simp add: main_def)
  from fetch_loop_indep[OF f[unfolded fetch_all_posts_def]]
  obtain evs where "w1 = emit evs (emit [Print MsgStart] w)"
    by auto
  then show "files (emit [Print (MsgTotal 0), Print MsgNoPosts] w1) = files w"
    and "dirs (emit [Print (MsgTotal 0), Print MsgNoPosts] w1) = dirs w"
    by (simp_all add: emit_def)
qed

text \<open>The theorem against a host that serves nothing.\<close>

theorem main_returns_none_witness:
  "fetch_all_posts silent_env (emit [Print MsgStart] empty_world) =
     Some (Inr [],
           emit [Print (MsgFetching start_url), Fetch start_url,
                 Print (MsgFeedError (Some (Exn ''timed out'')))]
             (emit [Print MsgStart] empty_world))
   \<and> main silent_env empty_world =
       Some (Inr PyNone,
             emit [Print (MsgTotal 0), Print MsgNoPosts]
               (emit [Print (MsgFetching start_url), Fetch start_url,
                      Print (MsgFeedError (Some (Exn ''timed out'')))]
                  (emit [Print MsgStart] empty_world)))
   \<and> files (emit [Print (MsgTotal 0), Print MsgNoPosts]
               (emit [Print (MsgFetching start_url), Fetch start_url,
                      Print (MsgFeedError (Some (Exn ''timed out'')))]
                  (emit [Print MsgStart] empty_world))) = Map.empty
   \<and> dirs (emit [Print (MsgTotal 0), Print MsgNoPosts]
               (emit [Print (MsgFetching start_url), Fetch start_url,
                      Print (MsgFeedError (Some (Exn ''timed out'')))]
                  (emit [Print MsgStart] empty_world))) = {}"
proof -
  have u: "start_url \<noteq> []" by (simp add: start_url_def BLOG_FEED_URL_def)
  have p: "feedparser_parse silent_env start_url = Inr silent_feed"
    by (simp add: silent_env_def)
  have fl: "failed silent_feed" by (simp add: failed_def silent_feed_def)
  have b: "f_bozo silent_feed = Some (Exn ''timed out'')" by (simp add: silent_feed_def)
  have f: "fetch_all_posts silent_env (emit [Print MsgStart] empty_world) =
     Some (Inr [],
           emit [Print (MsgFetching start_url), Fetch start_url,
                 Print (MsgFeedError (Some (Exn ''timed out'')))]
             (emit [Print MsgStart] empty_world))"
    unfolding fetch_all_posts_def start_url_def[symmetric]
    by (simp add: fetch_loop_abort[OF u p fl] b)
  show ?thesis
    using main_returns_none[of silent_env empty_world] f
    by (simp add: empty_world_def)
qed

text \<open>
  The claim as first stated does not hold: on the small blog two posts are written, and
  \<^verbatim>\<open>main\<close> returns \<^verbatim>\<open>None\<close>, not the count 2.
\<close>

theorem main_count_counterexample:
  "map_option fst (main demo_env empty_world) = Some (Inr PyNone)
   \<and> map_option fst (main demo_env empty_world) \<noteq> Some (Inr (PyInt 2))
   \<and> files (snd (the (main demo_env empty_world))) ''posts/2024/2024-01-02-03-04-Hello/index.md''
       = Some ''# Hello\<newline>\<newline>Hi\<newline>''
   \<and> files (snd (the (main demo_env empty_world))) ''posts/2023/2023-12-31-23-59/index.md''
       = Some ''Bye\<newline>''
   \<and> dom (files (snd (the (main demo_env empty_world))))
       = {''posts/2024/2024-01-02-03-04-Hello/index.md'',
          ''posts/2024/2024-01-02-03-04-Hello/comments.md'',
          ''posts/2023/2023-12-31-23-59/index.md''}"
  by (auto simp: demo_main demo_final_def)

subsection \<open>Running twice\<close>

text \<open>
  Claim C9. If a run of \<^verbatim>\<open>main\<close> ends, a second run against the same feed, started in the
  world the first run left, ends the same way and leaves every file with the content it had
  after the first run, and the same directories: each write replaces the file, none adds
  to it. This holds for all files, also where two posts share a folder.
\<close>

theorem main_idempotent:
  assumes "main env w = Some (r, w1)"
  shows "\<exists>w2. main env w1 = Some (r, w2) \<and> files w2 = files w1 \<and> dirs w2 = dirs w1"
proof -
  from main_indep[OF assms] obtain eff where
    "w1 = apply_effect eff w" and "\<And>v. main env v = Some (r, apply_effect eff v)"
    by blast
  then show ?thesis
    by (intro exI[of _ "apply_effect eff w1"])
       (simp add: apply_effect_same_files apply_effect_same_dirs)
qed

text \<open>The theorem on the small blog, whose first run leaves three files.\<close>

theorem main_idempotent_witness:
  "main demo_env empty_world = Some (Inr PyNone, demo_final)
   \<and> (\<exists>w2. main demo_env demo_final = Some (Inr PyNone, w2)
            \<and> files w2 = files demo_final \<and> dirs w2 = dirs demo_final)
   \<and> files demo_final ''posts/2024/2024-01-02-03-04-Hello/comments.md''
       = Some ''# Comments\<newline>\<newline>## Ann - 2024-01-03 10:00\<newline>\<newline>First\<newline>\<newline>---\<newline>\<newline>## Anonymous - soon\<newline>\<newline>Second\<newline>\<newline>''"
  using main_idempotent[OF demo_main] demo_main
  by (simp add: demo_final_def)

end
